theory Spec2Isabelle
  imports Main "HOL-Library.Sublist"
begin

section \<open>The planner of \<open>k3sup plan\<close> (\<open>cmd/plan.go\<close>)\<close>

text \<open>
  The development embeds the body of \<open>RunE\<close> in \<open>MakePlan\<close> from the point where the
  host file has been decoded into a slice of \<open>Host\<close> values and the flags have been read:
  the computation of the optional clauses, the loop over the hosts and the final print.
  Go strings are byte sequences and are modelled as \<open>string\<close> (lists of 8-bit characters);
  Go's \<open>int\<close> is modelled as \<open>int\<close>: the only arithmetic is \<open>i + 1\<close>, \<open>serversAdded + 1\<close>
  and \<open>(i + 1) - serversAdded\<close>, all bounded by the length of the slice, so no operation
  can wrap, and the flags \<open>servers\<close> and \<open>limit\<close> are only compared.
  The code reads nothing but the flag values and the host slice, which it walks in index
  order; it iterates over no map, starts no goroutine and reads no clock or random source.
  So the run is embedded as a function of the flags and the hosts.
\<close>

subsection \<open>Data\<close>

record Host =
  Hostname :: string
  IP :: string

text \<open>The values of the command-line flags that the loop reads.\<close>

record flags =
  nodeLimit :: int
  background :: bool
  serverK3sExtraArgs :: string
  agentK3sExtraArgs :: string
  servers :: int
  kubeconfig :: string
  contextName :: string
  user :: string
  tlsSan :: string

text \<open>The local variables that the loop updates.\<close>

record state =
  serversAdded :: int
  primaryServer :: Host
  script :: string

text \<open>The three branches of the loop body, named as the roles they install.\<close>

datatype role = PrimaryControlPlane | AdditionalControlPlane | Worker

text \<open>One rendered command block: the text one iteration appends to the script.\<close>

record block =
  hostAddress :: string
  role :: role
  renderedText :: string

text \<open>What \<open>RunE\<close> prints and what it returns (\<open>None\<close> is Go's \<open>nil\<close> error).\<close>

datatype error = Error string

record result =
  stdout :: string
  err :: "error option"

subsection \<open>Formatting\<close>

text \<open>A backslash cannot be written inside a string literal; it is character \<open>0x5C\<close>.\<close>

abbreviation (input) bs :: string where
  "bs \<equiv> [CHR 0x5C]"

text \<open>The verb \<open>%d\<close> of \<open>fmt.Sprintf\<close>: decimal digits, with a minus sign when negative.\<close>

definition digit :: "nat \<Rightarrow> char" where
  "digit d = ''0123456789'' ! d"

fun fmt_nat :: "nat \<Rightarrow> string" where
  "fmt_nat n = (if n < 10 then [digit n] else fmt_nat (n div 10) @ [digit (n mod 10)])"

declare fmt_nat.simps [simp del]

definition fmt_d :: "int \<Rightarrow> string" where
  "fmt_d i = (if i < 0 then ''-'' @ fmt_nat (nat (- i)) else fmt_nat (nat i))"

subsection \<open>The optional clauses\<close>

definition tlsSanStr :: "flags \<Rightarrow> string" where
  "tlsSanStr fl =
     (if length (tlsSan fl) > 0 then '' '' @ bs @ ''\<newline>--tls-san '' @ tlsSan fl else [])"

definition bgStr :: "flags \<Rightarrow> string" where
  "bgStr fl = (if background fl then '' &'' else [])"

definition serverExtraArgsSt :: "flags \<Rightarrow> string" where
  \<open>serverExtraArgsSt fl =
     (if length (serverK3sExtraArgs fl) > 0
      then '' '' @ bs @ ''\<newline>--k3s-extra-args "'' @ serverK3sExtraArgs fl @ ''"''
      else [])\<close>

definition agentExtraArgsSt :: "flags \<Rightarrow> string" where
  \<open>agentExtraArgsSt fl =
     (if length (agentK3sExtraArgs fl) > 0
      then '' '' @ bs @ ''\<newline>--k3s-extra-args "'' @ agentK3sExtraArgs fl @ ''"''
      else [])\<close>

subsection \<open>The text of each branch\<close>

text \<open>First branch (\<open>serversAdded == 0\<close>): the marker, the install command, the token capture.\<close>

definition primaryText :: "flags \<Rightarrow> Host \<Rightarrow> string" where
  \<open>primaryText fl host =
     ''echo "Setting up primary server 1"\<newline>''
     @ (''k3sup install --host '' @ IP host @ '' '' @ bs @ ''\<newline>--user '' @ user fl
        @ '' '' @ bs @ ''\<newline>--cluster '' @ bs @ ''\<newline>--local-path '' @ kubeconfig fl
        @ '' '' @ bs @ ''\<newline>--context '' @ contextName fl
        @ tlsSanStr fl @ serverExtraArgsSt fl @ ''\<newline>'')
     @ (''\<newline>echo "Fetching the server's node-token into memory"\<newline>\<newline>''
        @ ''export NODE_TOKEN=$(k3sup node-token --host '' @ IP host
        @ '' --user '' @ user fl @ '')\<newline>'')\<close>

text \<open>Second branch (\<open>serversAdded < servers\<close>): an additional server joins.\<close>

definition additionalText :: "flags \<Rightarrow> state \<Rightarrow> Host \<Rightarrow> string" where
  \<open>additionalText fl st host =
     (''\<newline>echo "Setting up additional server: '' @ fmt_d (serversAdded st + 1) @ ''"\<newline>'')
     @ (''k3sup join '' @ bs @ ''\<newline>--host '' @ IP host
        @ '' '' @ bs @ ''\<newline>--server-host '' @ IP (primaryServer st)
        @ '' '' @ bs @ ''\<newline>--server '' @ bs @ ''\<newline>--node-token "$NODE_TOKEN" '' @ bs
        @ ''\<newline>--user '' @ user fl
        @ tlsSanStr fl @ serverExtraArgsSt fl @ bgStr fl @ ''\<newline>'')\<close>

text \<open>Third branch: an agent joins.\<close>

definition workerText :: "flags \<Rightarrow> state \<Rightarrow> int \<Rightarrow> Host \<Rightarrow> string" where
  \<open>workerText fl st i host =
     (''\<newline>echo "Setting up worker: '' @ fmt_d ((i + 1) - serversAdded st) @ ''"\<newline>'')
     @ (''k3sup join '' @ bs @ ''\<newline>--host '' @ IP host
        @ '' '' @ bs @ ''\<newline>--server-host '' @ IP (primaryServer st)
        @ '' '' @ bs @ ''\<newline>--node-token "$NODE_TOKEN" '' @ bs
        @ ''\<newline>--user '' @ user fl
        @ agentExtraArgsSt fl @ bgStr fl @ ''\<newline>'')\<close>

subsection \<open>The loop\<close>

text \<open>The body of the loop up to, and not including, the test of the limit.\<close>

definition body :: "flags \<Rightarrow> int \<Rightarrow> Host \<Rightarrow> state \<Rightarrow> state" where
  "body fl i host st =
     (if serversAdded st = 0 then
        st\<lparr>script := script st @ primaryText fl host, serversAdded := 1, primaryServer := host\<rparr>
      else if serversAdded st < servers fl then
        st\<lparr>script := script st @ additionalText fl st host, serversAdded := serversAdded st + 1\<rparr>
      else
        st\<lparr>script := script st @ workerText fl st i host\<rparr>)"

text \<open>
  \<open>for i, host := range hosts\<close>, with the \<open>break\<close> once \<open>nodeLimit > 0\<close> and
  \<open>i + 1 >= nodeLimit\<close>. The list is the part of the slice from index \<open>i\<close> on.
\<close>

fun loop :: "flags \<Rightarrow> int \<Rightarrow> Host list \<Rightarrow> state \<Rightarrow> state" where
  "loop fl i [] st = st"
| "loop fl i (host # rest) st =
     (let st' = body fl i host st in
      if nodeLimit fl > 0 \<and> i + 1 \<ge> nodeLimit fl then st' else loop fl (i + 1) rest st')"

definition init :: state where
  "init = \<lparr>serversAdded = 0, primaryServer = \<lparr>Hostname = [], IP = []\<rparr>,
           script = ''#!/bin/sh\<newline>\<newline>''\<rparr>"

text \<open>The run from the decoded hosts on: the script followed by a newline is printed, and
  \<open>nil\<close> is returned.\<close>

definition RunE :: "flags \<Rightarrow> Host list \<Rightarrow> result" where
  "RunE fl hosts = \<lparr>stdout = script (loop fl 0 hosts init) @ ''\<newline>'', err = None\<rparr>"

subsection \<open>The blocks of a run\<close>

text \<open>
  The script is one string; to speak of its blocks, the same loop is run once more,
  recording for each iteration the branch taken, the address of the host and the text
  appended. Lemma \<open>script_loop\<close> below shows that the script is the concatenation of
  these texts.
\<close>

definition blockOf :: "flags \<Rightarrow> int \<Rightarrow> Host \<Rightarrow> state \<Rightarrow> block" where
  "blockOf fl i host st =
     (if serversAdded st = 0 then
        \<lparr>hostAddress = IP host, role = PrimaryControlPlane, renderedText = primaryText fl host\<rparr>
      else if serversAdded st < servers fl then
        \<lparr>hostAddress = IP host, role = AdditionalControlPlane,
         renderedText = additionalText fl st host\<rparr>
      else
        \<lparr>hostAddress = IP host, role = Worker, renderedText = workerText fl st i host\<rparr>)"

fun blocks :: "flags \<Rightarrow> int \<Rightarrow> Host list \<Rightarrow> state \<Rightarrow> block list" where
  "blocks fl i [] st = []"
| "blocks fl i (host # rest) st =
     blockOf fl i host st #
     (if nodeLimit fl > 0 \<and> i + 1 \<ge> nodeLimit fl then []
      else blocks fl (i + 1) rest (body fl i host st))"

definition plan :: "flags \<Rightarrow> Host list \<Rightarrow> block list" where
  "plan fl hosts = blocks fl 0 hosts init"

subsection \<open>Values taken from the source\<close>

text \<open>The defaults of the flags, as \<open>MakePlan\<close> declares them.\<close>

definition defaultFlags :: flags where
  "defaultFlags =
     \<lparr>nodeLimit = 0, background = False, serverK3sExtraArgs = [], agentK3sExtraArgs = [],
      servers = 3, kubeconfig = ''kubeconfig'', contextName = ''default'', user = ''root'',
      tlsSan = []\<rparr>"

text \<open>The three hosts of \<open>outputExampleHostsJSON\<close>.\<close>

definition exampleHosts :: "Host list" where
  "exampleHosts =
     [\<lparr>Hostname = ''node-1'', IP = ''192.168.128.102''\<rparr>,
      \<lparr>Hostname = ''node-2'', IP = ''192.168.128.103''\<rparr>,
      \<lparr>Hostname = ''node-3'', IP = ''192.168.128.104''\<rparr>]"

subsection \<open>Counting blocks by role\<close>

definition controlPlaneCount :: "block list \<Rightarrow> nat" where
  "controlPlaneCount bl = length (filter (\<lambda>b. role b \<noteq> Worker) bl)"

definition workerCount :: "block list \<Rightarrow> nat" where
  "workerCount bl = length (filter (\<lambda>b. role b = Worker) bl)"

section \<open>The loop and its texts\<close>

lemma body_script: "script (body fl i host st) = script st @ renderedText (blockOf fl i host st)"
  by (simp add: body_def blockOf_def)

lemma script_loop:
  "script (loop fl i hosts st) = script st @ concat (map renderedText (blocks fl i hosts st))"
  by (induction hosts arbitrary: i st) (simp_all add: Let_def body_script)

subsection \<open>The state along the loop\<close>

lemma additionalText_cong:
  "serversAdded st = serversAdded st' \<Longrightarrow> primaryServer st = primaryServer st' \<Longrightarrow>
   additionalText fl st host = additionalText fl st' host"
  unfolding additionalText_def by simp

lemma workerText_cong:
  "serversAdded st = serversAdded st' \<Longrightarrow> primaryServer st = primaryServer st' \<Longrightarrow>
   workerText fl st i host = workerText fl st' i host"
  unfolding workerText_def by simp

lemma blockOf_cong:
  "serversAdded st = serversAdded st' \<Longrightarrow> primaryServer st = primaryServer st' \<Longrightarrow>
   blockOf fl i host st = blockOf fl i host st'"
  using additionalText_cong [of st st' fl host] workerText_cong [of st st' fl i host]
  unfolding blockOf_def by simp

lemma body_serversAdded:
  "serversAdded (body fl i host st) =
     (if serversAdded st = 0 then 1
      else if serversAdded st < servers fl then serversAdded st + 1 else serversAdded st)"
  by (simp add: body_def)

lemma body_primaryServer:
  "primaryServer (body fl i host st) = (if serversAdded st = 0 then host else primaryServer st)"
  by (simp add: body_def)

lemma length_blocks:
  "length (blocks fl i hs st) =
     (if nodeLimit fl > 0 \<and> hs \<noteq> [] then min (length hs) (max 1 (nat (nodeLimit fl - i)))
      else length hs)"
proof (induction hs arbitrary: i st)
  case Nil
  then show ?case by simp
next
  case (Cons h rest)
  let ?L = "nodeLimit fl"
  consider (stop) "?L > 0" "i + 1 \<ge> ?L" | (go) "?L > 0" "i + 1 < ?L" | (nolimit) "?L \<le> 0"
    by linarith
  then show ?case
  proof cases
    case stop
    then have "max 1 (nat (?L - i)) = 1" by simp
    with stop show ?thesis by simp
  next
    case go
    define m where "m = nat (?L - (i + 1))"
    have m: "1 \<le> m" "nat (?L - i) = Suc m" using go by (simp_all add: m_def)
    have "length (blocks fl (i + 1) rest (body fl i h st)) = min (length rest) m"
      using Cons.IH [of "i + 1" "body fl i h st"] go m by (cases rest) (simp_all add: m_def)
    with go m show ?thesis by simp
  next
    case nolimit
    then show ?thesis using Cons.IH [of "i + 1" "body fl i h st"] by simp
  qed
qed

lemma serversAdded_after:
  "1 \<le> serversAdded st \<Longrightarrow>
   max (serversAdded (body fl i h st)) (min (serversAdded (body fl i h st) + int k) (servers fl))
   = max (serversAdded st) (min (serversAdded st + int (Suc k)) (servers fl))"
  unfolding body_serversAdded by (simp add: add.assoc)

lemma blocks_nth:
  "j < length (blocks fl i hs st) \<Longrightarrow> 1 \<le> serversAdded st \<Longrightarrow>
   blocks fl i hs st ! j =
     blockOf fl (i + int j) (hs ! j)
       (st\<lparr>serversAdded := max (serversAdded st) (min (serversAdded st + int j) (servers fl))\<rparr>)"
proof (induction hs arbitrary: i st j)
  case Nil
  then show ?case by simp
next
  case (Cons h rest)
  show ?case
  proof (cases j)
    case 0
    have "blockOf fl i h st = blockOf fl i h
       (st\<lparr>serversAdded := max (serversAdded st) (min (serversAdded st + 0) (servers fl))\<rparr>)"
      by (rule blockOf_cong) simp_all
    then show ?thesis using 0 by simp
  next
    case (Suc k)
    let ?st' = "body fl i h st"
    have nobreak: "\<not> (nodeLimit fl > 0 \<and> i + 1 \<ge> nodeLimit fl)"
    proof
      assume "nodeLimit fl > 0 \<and> i + 1 \<ge> nodeLimit fl"
      then have "length (blocks fl i (h # rest) st) = 1" by simp
      with Cons.prems(1) Suc show False by simp
    qed
    then have "(nodeLimit fl > 0 \<and> i + 1 \<ge> nodeLimit fl) = False"
      by blast
    then have unfold: "blocks fl i (h # rest) st = blockOf fl i h st # blocks fl (i + 1) rest ?st'"
      by (simp only: blocks.simps if_False)
    have k: "k < length (blocks fl (i + 1) rest ?st')"
      using Cons.prems(1) Suc unfolding unfold by simp
    have s': "1 \<le> serversAdded ?st'" using Cons.prems(2) by (simp add: body_serversAdded)
    have ps: "primaryServer ?st' = primaryServer st"
      using Cons.prems(2) by (simp add: body_primaryServer)
    have idx: "i + 1 + int k = i + int j" using Suc by simp
    have el: "rest ! k = (h # rest) ! j" using Suc by simp
    have "blocks fl i (h # rest) st ! j = blocks fl (i + 1) rest ?st' ! k"
      unfolding unfold using Suc by simp
    also have "\<dots> = blockOf fl (i + 1 + int k) (rest ! k)
        (?st'\<lparr>serversAdded := max (serversAdded ?st') (min (serversAdded ?st' + int k) (servers fl))\<rparr>)"
      by (rule Cons.IH [OF k s'])
    also have "\<dots> = blockOf fl (i + 1 + int k) (rest ! k)
        (st\<lparr>serversAdded := max (serversAdded st) (min (serversAdded st + int j) (servers fl))\<rparr>)"
    proof (rule blockOf_cong)
      show "serversAdded (?st'\<lparr>serversAdded := max (serversAdded ?st') (min (serversAdded ?st' + int k) (servers fl))\<rparr>)
        = serversAdded (st\<lparr>serversAdded := max (serversAdded st) (min (serversAdded st + int j) (servers fl))\<rparr>)"
        using serversAdded_after [OF Cons.prems(2), of fl i h k] Suc by simp
      show "primaryServer (?st'\<lparr>serversAdded := max (serversAdded ?st') (min (serversAdded ?st' + int k) (servers fl))\<rparr>)
        = primaryServer (st\<lparr>serversAdded := max (serversAdded st) (min (serversAdded st + int j) (servers fl))\<rparr>)"
        using ps by simp
    qed
    finally show ?thesis unfolding idx el .
  qed
qed

subsection \<open>The plan, block by block\<close>

lemma length_plan:
  "length (plan fl hosts) =
     (if nodeLimit fl > 0 then min (length hosts) (nat (nodeLimit fl)) else length hosts)"
proof (cases "nodeLimit fl > 0")
  case True
  then have "max 1 (nat (nodeLimit fl - 0)) = nat (nodeLimit fl)" by simp
  with True show ?thesis unfolding plan_def length_blocks by (cases hosts) simp_all
next
  case False
  then show ?thesis unfolding plan_def length_blocks by simp
qed

lemma plan_Nil: "plan fl [] = []"
  by (simp add: plan_def)

lemma blockOf_init:
  "blockOf fl i h init =
     \<lparr>hostAddress = IP h, role = PrimaryControlPlane, renderedText = primaryText fl h\<rparr>"
  by (simp add: blockOf_def init_def)

lemma body_init:
  "serversAdded (body fl i h init) = 1" "primaryServer (body fl i h init) = h"
  by (simp_all add: body_def init_def)

lemma plan_0:
  "hosts \<noteq> [] \<Longrightarrow> plan fl hosts ! 0 =
     \<lparr>hostAddress = IP (hd hosts), role = PrimaryControlPlane,
      renderedText = primaryText fl (hd hosts)\<rparr>"
  by (cases hosts) (simp_all add: plan_def blockOf_init)

lemma plan_nth:
  assumes "0 < k" "k < length (plan fl hosts)"
  shows "plan fl hosts ! k =
     blockOf fl (int k) (hosts ! k)
       \<lparr>serversAdded = max 1 (min (int k) (servers fl)), primaryServer = hd hosts, script = []\<rparr>"
proof -
  from assms obtain h rest where hosts: "hosts = h # rest"
    by (cases hosts) (auto simp: plan_Nil)
  from assms obtain j where j: "k = Suc j" by (cases k) auto
  let ?st = "body fl 0 h init"
  have nobreak: "(nodeLimit fl > 0 \<and> 0 + 1 \<ge> nodeLimit fl) = False"
  proof -
    have "\<not> (nodeLimit fl > 0 \<and> 0 + 1 \<ge> nodeLimit fl)"
    proof
      assume "nodeLimit fl > 0 \<and> 0 + 1 \<ge> nodeLimit fl"
      then have "length (plan fl hosts) = 1" unfolding plan_def hosts by simp
      with assms j show False by simp
    qed
    then show ?thesis by blast
  qed
  have unfold: "plan fl hosts = blockOf fl 0 h init # blocks fl (0 + 1) rest ?st"
    unfolding plan_def hosts by (simp only: blocks.simps nobreak if_False)
  have jlen: "j < length (blocks fl (0 + 1) rest ?st)"
    using assms(2) unfolding unfold j by simp
  have "plan fl hosts ! k = blocks fl (0 + 1) rest ?st ! j"
    unfolding unfold j by simp
  also have "\<dots> = blockOf fl (0 + 1 + int j) (rest ! j)
      (?st\<lparr>serversAdded := max (serversAdded ?st) (min (serversAdded ?st + int j) (servers fl))\<rparr>)"
    by (rule blocks_nth [OF jlen]) (simp add: body_init)
  also have "\<dots> = blockOf fl (0 + 1 + int j) (rest ! j)
      \<lparr>serversAdded = max 1 (min (int k) (servers fl)), primaryServer = hd hosts, script = []\<rparr>"
    by (rule blockOf_cong) (simp_all add: body_init hosts j add.commute)
  also have "0 + 1 + int j = int k" using j by simp
  also have "rest ! j = hosts ! k" using j hosts by simp
  finally show ?thesis .
qed

lemma blockOf_pos:
  "1 \<le> serversAdded st \<Longrightarrow> blockOf fl i h st =
     (if serversAdded st < servers fl
      then \<lparr>hostAddress = IP h, role = AdditionalControlPlane,
            renderedText = additionalText fl st h\<rparr>
      else \<lparr>hostAddress = IP h, role = Worker, renderedText = workerText fl st i h\<rparr>)"
  by (simp add: blockOf_def)

lemma plan_nth_pos:
  assumes "0 < k" "k < length (plan fl hosts)"
  shows "plan fl hosts ! k =
     (if int k < servers fl
      then \<lparr>hostAddress = IP (hosts ! k), role = AdditionalControlPlane,
            renderedText = additionalText fl
              \<lparr>serversAdded = int k, primaryServer = hd hosts, script = []\<rparr> (hosts ! k)\<rparr>
      else \<lparr>hostAddress = IP (hosts ! k), role = Worker,
            renderedText = workerText fl
              \<lparr>serversAdded = max 1 (servers fl), primaryServer = hd hosts, script = []\<rparr>
              (int k) (hosts ! k)\<rparr>)"
proof -
  define s where "s = max 1 (min (int k) (servers fl))"
  have s1: "1 \<le> s" by (simp add: s_def)
  have lt: "s < servers fl \<longleftrightarrow> int k < servers fl" using assms(1) by (auto simp: s_def)
  have a: "int k < servers fl \<Longrightarrow> s = int k" using assms(1) by (simp add: s_def)
  have w: "\<not> int k < servers fl \<Longrightarrow> s = max 1 (servers fl)" by (simp add: s_def)
  have "plan fl hosts ! k = blockOf fl (int k) (hosts ! k)
       \<lparr>serversAdded = s, primaryServer = hd hosts, script = []\<rparr>"
    unfolding s_def by (rule plan_nth [OF assms])
  also have "\<dots> =
     (if s < servers fl
      then \<lparr>hostAddress = IP (hosts ! k), role = AdditionalControlPlane,
            renderedText = additionalText fl
              \<lparr>serversAdded = s, primaryServer = hd hosts, script = []\<rparr> (hosts ! k)\<rparr>
      else \<lparr>hostAddress = IP (hosts ! k), role = Worker,
            renderedText = workerText fl
              \<lparr>serversAdded = s, primaryServer = hd hosts, script = []\<rparr>
              (int k) (hosts ! k)\<rparr>)"
    using s1 by (simp add: blockOf_pos)
  finally show ?thesis using a w by (simp add: lt)
qed

lemma plan_hostAddress:
  assumes "k < length (plan fl hosts)"
  shows "hostAddress (plan fl hosts ! k) = IP (hosts ! k)"
proof (cases "k = 0")
  case True
  from assms have "hosts \<noteq> []" by (auto simp: plan_Nil)
  then show ?thesis using True by (simp add: plan_0 hd_conv_nth)
next
  case False
  then have "0 < k" by simp
  from plan_nth_pos [OF this assms] show ?thesis by simp
qed

lemma plan_role:
  assumes "k < length (plan fl hosts)"
  shows "role (plan fl hosts ! k) =
     (if k = 0 then PrimaryControlPlane
      else if int k < servers fl then AdditionalControlPlane else Worker)"
proof (cases "k = 0")
  case True
  from assms have "hosts \<noteq> []" by (auto simp: plan_Nil)
  then show ?thesis using True by (simp add: plan_0)
next
  case False
  then have "0 < k" by simp
  from plan_nth_pos [OF this assms] False show ?thesis by simp
qed

lemma count_below:
  "(\<And>i. i < length xs \<Longrightarrow> P (xs ! i) \<longleftrightarrow> i < t) \<Longrightarrow> length (filter P xs) = min t (length xs)"
proof (induction xs rule: rev_induct)
  case Nil
  then show ?case by simp
next
  case (snoc x xs)
  have "P (xs ! i) \<longleftrightarrow> i < t" if "i < length xs" for i
    using snoc.prems [of i] that by (simp add: nth_append)
  then have IH: "length (filter P xs) = min t (length xs)" by (rule snoc.IH)
  have "P x \<longleftrightarrow> length xs < t" using snoc.prems [of "length xs"] by simp
  with IH show ?case by simp
qed

subsection \<open>What the texts depend on\<close>

lemmas clause_defs = tlsSanStr_def bgStr_def serverExtraArgsSt_def agentExtraArgsSt_def

lemma texts_nodeLimit:
  "primaryText (fl\<lparr>nodeLimit := l\<rparr>) h = primaryText fl h"
  "additionalText (fl\<lparr>nodeLimit := l\<rparr>) st h = additionalText fl st h"
  "workerText (fl\<lparr>nodeLimit := l\<rparr>) st i h = workerText fl st i h"
  unfolding primaryText_def additionalText_def workerText_def clause_defs by simp_all

lemma texts_servers:
  "primaryText (fl\<lparr>servers := c\<rparr>) h = primaryText fl h"
  "additionalText (fl\<lparr>servers := c\<rparr>) st h = additionalText fl st h"
  "workerText (fl\<lparr>servers := c\<rparr>) st i h = workerText fl st i h"
  unfolding primaryText_def additionalText_def workerText_def clause_defs by simp_all

lemma primaryText_IP: "IP h = IP h' \<Longrightarrow> primaryText fl h = primaryText fl h'"
  unfolding primaryText_def by simp

lemma additionalText_IP:
  "IP h = IP h' \<Longrightarrow> serversAdded st = serversAdded st' \<Longrightarrow>
   IP (primaryServer st) = IP (primaryServer st') \<Longrightarrow>
   additionalText fl st h = additionalText fl st' h'"
  unfolding additionalText_def by simp

lemma workerText_IP:
  "IP h = IP h' \<Longrightarrow> serversAdded st = serversAdded st' \<Longrightarrow>
   IP (primaryServer st) = IP (primaryServer st') \<Longrightarrow>
   workerText fl st i h = workerText fl st' i h'"
  unfolding workerText_def by simp

lemma RunE_plan:
  "RunE fl hosts =
     \<lparr>stdout = ''#!/bin/sh\<newline>\<newline>'' @ concat (map renderedText (plan fl hosts)) @ ''\<newline>'',
      err = None\<rparr>"
  unfolding RunE_def plan_def script_loop by (simp add: init_def)

lemma plan_limit:
  assumes "0 < nodeLimit fl" and that: "l \<le> 0 \<or> l = nodeLimit fl"
  shows "plan fl hosts = plan (fl\<lparr>nodeLimit := l\<rparr>) (take (nat (nodeLimit fl)) hosts)"
proof (rule nth_equalityI)
  let ?fl' = "fl\<lparr>nodeLimit := l\<rparr>" and ?hs' = "take (nat (nodeLimit fl)) hosts"
  show len: "length (plan fl hosts) = length (plan ?fl' ?hs')"
    using assms that by (auto simp: length_plan)
  fix k assume k: "k < length (plan fl hosts)"
  then have k': "k < length (plan ?fl' ?hs')" using len by simp
  from k assms have kL: "k < nat (nodeLimit fl)" "k < length hosts" by (simp_all add: length_plan)
  then have el: "?hs' ! k = hosts ! k" by simp
  from kL have ne: "hosts \<noteq> []" "?hs' \<noteq> []" using assms by auto
  have hd: "hd ?hs' = hd hosts" using ne assms by (cases hosts) (simp_all add: take_Cons')
  show "plan fl hosts ! k = plan ?fl' ?hs' ! k"
  proof (cases "k = 0")
    case True
    then show ?thesis using ne by (simp add: plan_0 hd texts_nodeLimit)
  next
    case False
    then have pos: "0 < k" by simp
    show ?thesis
      unfolding plan_nth_pos [OF pos k] plan_nth_pos [OF pos k'] el hd texts_nodeLimit by simp
  qed
qed

lemma plan_servers_nonpos:
  assumes "servers fl \<le> 0"
  shows "plan fl hosts = plan (fl\<lparr>servers := 1\<rparr>) hosts"
proof (rule nth_equalityI)
  let ?fl' = "fl\<lparr>servers := 1\<rparr>"
  show len: "length (plan fl hosts) = length (plan ?fl' hosts)"
    by (simp add: length_plan)
  fix k assume k: "k < length (plan fl hosts)"
  then have k': "k < length (plan ?fl' hosts)" using len by simp
  from k have ne: "hosts \<noteq> []" by (auto simp: plan_Nil)
  show "plan fl hosts ! k = plan ?fl' hosts ! k"
  proof (cases "k = 0")
    case True
    then show ?thesis using ne by (simp add: plan_0 texts_servers)
  next
    case False
    then have pos: "0 < k" by simp
    have m: "max 1 (servers fl) = 1" "\<not> int k < servers fl" using assms pos by simp_all
    show ?thesis
      unfolding plan_nth_pos [OF pos k] plan_nth_pos [OF pos k'] texts_servers using m pos by simp
  qed
qed

lemma plan_IP:
  assumes "map IP hosts = map IP hosts'"
  shows "plan fl hosts = plan fl hosts'"
proof (rule nth_equalityI)
  from assms have n: "length hosts = length hosts'" by (rule map_eq_imp_length_eq)
  then show len: "length (plan fl hosts) = length (plan fl hosts')"
    by (simp add: length_plan)
  fix k assume k: "k < length (plan fl hosts)"
  then have k': "k < length (plan fl hosts')" using len by simp
  from k have ne: "hosts \<noteq> []" by (auto simp: plan_Nil)
  with n have ne': "hosts' \<noteq> []" by auto
  have kn: "k < length hosts" using k by (simp add: length_plan split: if_splits)
  have el: "IP (hosts ! k) = IP (hosts' ! k)"
    using arg_cong [OF assms, of "\<lambda>xs. xs ! k"] kn n by simp
  have hd: "IP (hd hosts) = IP (hd hosts')"
    using assms ne ne' by (cases hosts; cases hosts') simp_all
  show "plan fl hosts ! k = plan fl hosts' ! k"
  proof (cases "k = 0")
    case True
    then show ?thesis using ne ne' hd by (simp add: plan_0 primaryText_IP [OF hd])
  next
    case False
    then have pos: "0 < k" by simp
    show ?thesis
      unfolding plan_nth_pos [OF pos k] plan_nth_pos [OF pos k']
      using el hd additionalText_IP [OF el, of _ _ fl] workerText_IP [OF el, of _ _ fl]
      by simp
  qed
qed

subsection \<open>Counting\<close>

lemma controlPlane_below:
  assumes "i < length (plan fl hosts)"
  shows "role (plan fl hosts ! i) \<noteq> Worker \<longleftrightarrow> i < nat (max 1 (servers fl))"
  unfolding plan_role [OF assms] by auto

lemma controlPlaneCount_take:
  assumes "n \<le> length (plan fl hosts)"
  shows "controlPlaneCount (take n (plan fl hosts)) = min (nat (max 1 (servers fl))) n"
proof -
  have "length (filter (\<lambda>b. role b \<noteq> Worker) (take n (plan fl hosts)))
      = min (nat (max 1 (servers fl))) (length (take n (plan fl hosts)))"
  proof (rule count_below)
    fix i assume "i < length (take n (plan fl hosts))"
    then have i: "i < n" "i < length (plan fl hosts)" by simp_all
    then show "role (take n (plan fl hosts) ! i) \<noteq> Worker \<longleftrightarrow> i < nat (max 1 (servers fl))"
      using controlPlane_below [OF i(2)] by simp
  qed
  then show ?thesis using assms by (simp add: controlPlaneCount_def min_absorb2)
qed

lemma count_split: "controlPlaneCount bl + workerCount bl = length bl"
  unfolding controlPlaneCount_def workerCount_def
  using sum_length_filter_compl [of "\<lambda>b. role b \<noteq> Worker" bl] by simp

lemma workerCount_take:
  assumes "n \<le> length (plan fl hosts)"
  shows "workerCount (take n (plan fl hosts)) = n - nat (max 1 (servers fl))"
  using count_split [of "take n (plan fl hosts)"] controlPlaneCount_take [OF assms] assms
  by simp

subsection \<open>Characters and substrings of the texts\<close>

lemma fmt_nat_chars: "set (fmt_nat n) \<subseteq> set ''0123456789''"
proof (induction n rule: fmt_nat.induct)
  case (1 n)
  define D where "D = set ''0123456789''"
  have d: "digit m \<in> D" if "m < 10" for m
    unfolding digit_def D_def by (rule nth_mem) (use that in simp)
  show ?case
  proof (cases "n < 10")
    case True
    then have "fmt_nat n = [digit n]" by (subst fmt_nat.simps) simp
    then show ?thesis using d [OF True] unfolding D_def [symmetric] by simp
  next
    case False
    then have "fmt_nat n = fmt_nat (n div 10) @ [digit (n mod 10)]"
      by (subst fmt_nat.simps) simp
    moreover have "set (fmt_nat (n div 10)) \<subseteq> D" unfolding D_def by (rule 1 [OF False])
    moreover have "digit (n mod 10) \<in> D" by (rule d) simp
    ultimately show ?thesis unfolding D_def [symmetric] by simp
  qed
qed

lemma fmt_d_chars: "set (fmt_d i) \<subseteq> insert (CHR ''-'') (set ''0123456789'')"
proof -
  define D where "D = set ''0123456789''"
  have n: "set (fmt_nat n) \<subseteq> D" for n unfolding D_def by (rule fmt_nat_chars)
  have "set (fmt_d i) \<subseteq> insert (CHR ''-'') D"
  proof (cases "i < 0")
    case True
    then have "set (fmt_d i) = insert (CHR ''-'') (set (fmt_nat (nat (- i))))"
      by (simp add: fmt_d_def)
    then show ?thesis using n [of "nat (- i)"] by (simp add: subset_insertI2)
  next
    case False
    then have "set (fmt_d i) = set (fmt_nat (nat i))" by (simp add: fmt_d_def)
    then show ?thesis using n [of "nat i"] by (simp add: subset_insertI2)
  qed
  then show ?thesis unfolding D_def .
qed

lemma fmt_d_no_char:
  "c \<notin> insert (CHR ''-'') (set ''0123456789'') \<Longrightarrow> c \<notin> set (fmt_d i)"
  using fmt_d_chars [of i] by blast

lemma fmt_d_no_amp [simp]: "CHR ''&'' \<notin> set (fmt_d i)"
  by (rule fmt_d_no_char) simp

lemma fmt_d_no_tls [simp]: "\<not> sublist ''--tls-san'' (fmt_d i)"
proof
  assume "sublist ''--tls-san'' (fmt_d i)"
  then have "set ''--tls-san'' \<subseteq> set (fmt_d i)" by (rule set_mono_sublist)
  then have "CHR ''t'' \<in> set (fmt_d i)" by simp
  moreover have "CHR ''t'' \<notin> set (fmt_d i)" by (rule fmt_d_no_char) simp
  ultimately show False by contradiction
qed

lemma sublist_delim:
  assumes "d \<notin> set p"
  shows "sublist p (xs @ d # ys) \<longleftrightarrow> sublist p xs \<or> sublist p ys"
proof
  assume "sublist p xs \<or> sublist p ys"
  then show "sublist p (xs @ d # ys)"
    by (metis sublist_append sublist_Cons_right)
next
  assume "sublist p (xs @ d # ys)"
  then consider "sublist p xs" | "sublist p (d # ys)"
    | p1 p2 where "p = p1 @ p2" "suffix p1 xs" "prefix p2 (d # ys)"
    unfolding sublist_append by blast
  then show "sublist p xs \<or> sublist p ys"
  proof cases
    case 1
    then show ?thesis ..
  next
    case 2
    then have "prefix p (d # ys) \<or> sublist p ys" by (simp add: sublist_Cons_right)
    then show ?thesis using assms by (cases p) auto
  next
    case 3
    show ?thesis
    proof (cases p2)
      case Nil
      with 3 have "suffix p xs" by simp
      then show ?thesis by auto
    next
      case (Cons a p2')
      with 3 have "a = d" by simp
      with 3 Cons assms show ?thesis by simp
    qed
  qed
qed

lemma sublist_delim_Cons:
  "d \<notin> set p \<Longrightarrow> p \<noteq> [] \<Longrightarrow> sublist p (d # ys) \<longleftrightarrow> sublist p ys"
  using sublist_delim [of d p "[]" ys] by simp

lemma amp_primary:
  assumes "CHR ''&'' \<notin> set (IP h)" "CHR ''&'' \<notin> set (user fl)"
    "CHR ''&'' \<notin> set (kubeconfig fl)" "CHR ''&'' \<notin> set (contextName fl)"
    "CHR ''&'' \<notin> set (tlsSan fl)" "CHR ''&'' \<notin> set (serverK3sExtraArgs fl)"
  shows "CHR ''&'' \<notin> set (primaryText fl h)"
  unfolding primaryText_def tlsSanStr_def serverExtraArgsSt_def using assms by simp

lemma amp_additional:
  assumes "CHR ''&'' \<notin> set (IP h)" "CHR ''&'' \<notin> set (IP (primaryServer st))"
    "CHR ''&'' \<notin> set (user fl)" "CHR ''&'' \<notin> set (tlsSan fl)"
    "CHR ''&'' \<notin> set (serverK3sExtraArgs fl)"
  shows "CHR ''&'' \<in> set (additionalText fl st h) \<longleftrightarrow> background fl"
  unfolding additionalText_def tlsSanStr_def serverExtraArgsSt_def bgStr_def using assms by simp

lemma amp_worker:
  assumes "CHR ''&'' \<notin> set (IP h)" "CHR ''&'' \<notin> set (IP (primaryServer st))"
    "CHR ''&'' \<notin> set (user fl)" "CHR ''&'' \<notin> set (agentK3sExtraArgs fl)"
  shows "CHR ''&'' \<in> set (workerText fl st i h) \<longleftrightarrow> background fl"
  unfolding workerText_def agentExtraArgsSt_def bgStr_def using assms by simp

lemmas cons_form = append_Cons append_Nil append_assoc

lemmas scan_tls = sublist_Cons_right sublist_delim sublist_delim_Cons

lemma notls_worker:
  assumes "\<not> sublist ''--tls-san'' (IP h)" "\<not> sublist ''--tls-san'' (IP (primaryServer st))"
    "\<not> sublist ''--tls-san'' (user fl)" "\<not> sublist ''--tls-san'' (agentK3sExtraArgs fl)"
  shows "\<not> sublist ''--tls-san'' (workerText fl st i h)"
  unfolding workerText_def agentExtraArgsSt_def bgStr_def using assms
  by (simp add: scan_tls)

lemma notls_primary:
  assumes "\<not> sublist ''--tls-san'' (IP h)" "\<not> sublist ''--tls-san'' (user fl)"
    "\<not> sublist ''--tls-san'' (kubeconfig fl)" "\<not> sublist ''--tls-san'' (contextName fl)"
    "\<not> sublist ''--tls-san'' (serverK3sExtraArgs fl)" "tlsSan fl = []"
  shows "\<not> sublist ''--tls-san'' (primaryText fl h)"
  unfolding primaryText_def tlsSanStr_def serverExtraArgsSt_def using assms
  by (simp add: scan_tls)

lemma notls_additional:
  assumes "\<not> sublist ''--tls-san'' (IP h)" "\<not> sublist ''--tls-san'' (IP (primaryServer st))"
    "\<not> sublist ''--tls-san'' (user fl)" "\<not> sublist ''--tls-san'' (serverK3sExtraArgs fl)"
    "tlsSan fl = []"
  shows "\<not> sublist ''--tls-san'' (additionalText fl st h)"
  unfolding additionalText_def tlsSanStr_def serverExtraArgsSt_def bgStr_def using assms
  by (simp add: scan_tls)

lemma sublist_skip: "sublist xs ys \<Longrightarrow> sublist xs (y # ys)"
  by (simp add: sublist_Cons_right)

lemma sublist_skip_append: "sublist xs zs \<Longrightarrow> sublist xs (ys @ zs)"
  by (metis sublist_append)

lemma primaryText_token:
  "sublist (''export NODE_TOKEN=$(k3sup node-token --host '' @ IP h
              @ '' --user '' @ user fl @ '')'')
     (primaryText fl h)"
  unfolding primaryText_def cons_form
  by ((rule prefix_imp_sublist, (simp; fail)) | rule sublist_skip | rule sublist_skip_append)+

lemma additionalText_server_host:
  "sublist (''--server-host '' @ IP (primaryServer st) @ '' '' @ bs @ ''\<newline>'')
     (additionalText fl st h)"
  unfolding additionalText_def cons_form
  by ((rule prefix_imp_sublist, (simp; fail)) | rule sublist_skip | rule sublist_skip_append)+

lemma additionalText_node_token:
  \<open>sublist ''--node-token "$NODE_TOKEN"'' (additionalText fl st h)\<close>
  unfolding additionalText_def cons_form
  by ((rule prefix_imp_sublist, (simp; fail)) | rule sublist_skip | rule sublist_skip_append)+

lemma workerText_server_host:
  "sublist (''--server-host '' @ IP (primaryServer st) @ '' '' @ bs @ ''\<newline>'')
     (workerText fl st i h)"
  unfolding workerText_def cons_form
  by ((rule prefix_imp_sublist, (simp; fail)) | rule sublist_skip | rule sublist_skip_append)+

lemma workerText_node_token:
  \<open>sublist ''--node-token "$NODE_TOKEN"'' (workerText fl st i h)\<close>
  unfolding workerText_def cons_form
  by ((rule prefix_imp_sublist, (simp; fail)) | rule sublist_skip | rule sublist_skip_append)+

subsection \<open>The slots of the optional clauses\<close>

lemma primaryText_tlsSan:
  \<open>\<exists>pre post. \<forall>t. primaryText (fl\<lparr>tlsSan := t\<rparr>) h =
     pre @ (if t = [] then [] else '' '' @ bs @ ''\<newline>--tls-san '' @ t) @ post\<close>
  by (rule exI [where x = \<open>''echo "Setting up primary server 1"\<newline>''
        @ ''k3sup install --host '' @ IP h @ '' '' @ bs @ ''\<newline>--user '' @ user fl
        @ '' '' @ bs @ ''\<newline>--cluster '' @ bs @ ''\<newline>--local-path '' @ kubeconfig fl
        @ '' '' @ bs @ ''\<newline>--context '' @ contextName fl\<close>],
      rule exI [where x = \<open>serverExtraArgsSt fl @ ''\<newline>''
        @ ''\<newline>echo "Fetching the server's node-token into memory"\<newline>\<newline>''
        @ ''export NODE_TOKEN=$(k3sup node-token --host '' @ IP h
        @ '' --user '' @ user fl @ '')\<newline>''\<close>])
     (simp add: primaryText_def tlsSanStr_def serverExtraArgsSt_def)

lemma primaryText_background: "primaryText (fl\<lparr>background := b\<rparr>) h = primaryText fl h"
  unfolding primaryText_def tlsSanStr_def serverExtraArgsSt_def by simp

lemma additionalText_slots:
  \<open>\<exists>head. \<forall>t b. additionalText (fl\<lparr>tlsSan := t, background := b\<rparr>) st h =
     head @ (if t = [] then [] else '' '' @ bs @ ''\<newline>--tls-san '' @ t)
          @ serverExtraArgsSt fl @ (if b then '' &'' else []) @ ''\<newline>''\<close>
  by (rule exI [where x = \<open>''\<newline>echo "Setting up additional server: ''
        @ fmt_d (serversAdded st + 1) @ ''"\<newline>''
        @ ''k3sup join '' @ bs @ ''\<newline>--host '' @ IP h
        @ '' '' @ bs @ ''\<newline>--server-host '' @ IP (primaryServer st)
        @ '' '' @ bs @ ''\<newline>--server '' @ bs @ ''\<newline>--node-token "$NODE_TOKEN" '' @ bs
        @ ''\<newline>--user '' @ user fl\<close>])
     (simp add: additionalText_def tlsSanStr_def serverExtraArgsSt_def bgStr_def)

lemma workerText_slots:
  \<open>\<exists>head. \<forall>t b. workerText (fl\<lparr>tlsSan := t, background := b\<rparr>) st i h =
     head @ (if b then '' &'' else []) @ ''\<newline>''\<close>
  by (rule exI [where x = \<open>''\<newline>echo "Setting up worker: ''
        @ fmt_d ((i + 1) - serversAdded st) @ ''"\<newline>''
        @ ''k3sup join '' @ bs @ ''\<newline>--host '' @ IP h
        @ '' '' @ bs @ ''\<newline>--server-host '' @ IP (primaryServer st)
        @ '' '' @ bs @ ''\<newline>--node-token "$NODE_TOKEN" '' @ bs
        @ ''\<newline>--user '' @ user fl @ agentExtraArgsSt fl\<close>])
     (simp add: workerText_def agentExtraArgsSt_def bgStr_def)

lemma plan_text:
  assumes "k < length (plan fl hosts)"
  shows "renderedText (plan fl hosts ! k) =
     (if k = 0 then primaryText fl (hd hosts)
      else if int k < servers fl then
        additionalText fl
          \<lparr>serversAdded = int k, primaryServer = hd hosts, script = []\<rparr> (hosts ! k)
      else
        workerText fl
          \<lparr>serversAdded = max 1 (servers fl), primaryServer = hd hosts, script = []\<rparr>
          (int k) (hosts ! k))"
proof (cases "k = 0")
  case True
  from assms have "hosts \<noteq> []" by (auto simp: plan_Nil)
  then show ?thesis using True by (simp add: plan_0)
next
  case False
  then have "0 < k" by simp
  from plan_nth_pos [OF this assms] False show ?thesis by simp
qed

lemma length_plan_flags:
  "nodeLimit fl' = nodeLimit fl \<Longrightarrow> length (plan fl' hosts) = length (plan fl hosts)"
  by (simp add: length_plan)

lemma workerText_marker:
  \<open>prefix (''\<newline>echo "Setting up worker: '' @ fmt_d ((i + 1) - serversAdded st) @ ''"\<newline>'')
     (workerText fl st i h)\<close>
  unfolding workerText_def by (rule prefixI) (rule refl)

section \<open>The claims\<close>

text \<open>
  C1 (as amended). For a non-empty host list and \<open>servers \<ge> 1\<close>, let \<open>p\<close> be the number of
  hosts the loop processes: the limit when it is positive and smaller than the number of
  hosts, and the number of hosts otherwise. The host at index 0 is the primary server, a
  processed host at index \<open>i\<close> is an additional server iff \<open>0 < i < servers\<close>, and every
  other processed host is a worker; so \<open>min servers p\<close> blocks are control-plane blocks and
  the remaining \<open>p - servers\<close> are workers. The output of the run is the header followed by
  the texts of these blocks.
\<close>

theorem C1_roles_by_position:
  assumes "hosts \<noteq> []" and "1 \<le> servers fl"
  shows "length (plan fl hosts) =
           (if 0 < nodeLimit fl \<and> nodeLimit fl < int (length hosts)
            then nat (nodeLimit fl) else length hosts)
       \<and> role (plan fl hosts ! 0) = PrimaryControlPlane
       \<and> (\<forall>i < length (plan fl hosts).
             (role (plan fl hosts ! i) = PrimaryControlPlane \<longleftrightarrow> i = 0)
           \<and> (role (plan fl hosts ! i) = AdditionalControlPlane \<longleftrightarrow> 0 < i \<and> int i < servers fl)
           \<and> (role (plan fl hosts ! i) = Worker \<longleftrightarrow> 0 < i \<and> servers fl \<le> int i))
       \<and> controlPlaneCount (plan fl hosts) = min (nat (servers fl)) (length (plan fl hosts))
       \<and> workerCount (plan fl hosts) = length (plan fl hosts) - nat (servers fl)
       \<and> stdout (RunE fl hosts)
           = ''#!/bin/sh\<newline>\<newline>'' @ concat (map renderedText (plan fl hosts)) @ ''\<newline>''"
proof -
  have m: "max 1 (servers fl) = servers fl" using assms(2) by simp
  have len: "length (plan fl hosts) =
           (if 0 < nodeLimit fl \<and> nodeLimit fl < int (length hosts)
            then nat (nodeLimit fl) else length hosts)"
    unfolding length_plan by auto
  have first: "role (plan fl hosts ! 0) = PrimaryControlPlane"
    using assms(1) by (simp add: plan_0)
  have roles: "\<forall>i < length (plan fl hosts).
             (role (plan fl hosts ! i) = PrimaryControlPlane \<longleftrightarrow> i = 0)
           \<and> (role (plan fl hosts ! i) = AdditionalControlPlane \<longleftrightarrow> 0 < i \<and> int i < servers fl)
           \<and> (role (plan fl hosts ! i) = Worker \<longleftrightarrow> 0 < i \<and> servers fl \<le> int i)"
    by (simp add: plan_role)
  have cp: "controlPlaneCount (plan fl hosts) = min (nat (servers fl)) (length (plan fl hosts))"
    using controlPlaneCount_take [of "length (plan fl hosts)" fl hosts] m by simp
  have w: "workerCount (plan fl hosts) = length (plan fl hosts) - nat (servers fl)"
    using workerCount_take [of "length (plan fl hosts)" fl hosts] m by simp
  have out: "stdout (RunE fl hosts)
           = ''#!/bin/sh\<newline>\<newline>'' @ concat (map renderedText (plan fl hosts)) @ ''\<newline>''"
    by (simp add: RunE_plan)
  from len first roles cp w out show ?thesis by blast
qed

theorem C1_roles_by_position_witness:
  "exampleHosts \<noteq> [] \<and> 1 \<le> servers (defaultFlags\<lparr>servers := 2\<rparr>)
   \<and> length (plan (defaultFlags\<lparr>servers := 2\<rparr>) exampleHosts) = 3
   \<and> role (plan (defaultFlags\<lparr>servers := 2\<rparr>) exampleHosts ! 0) = PrimaryControlPlane
   \<and> role (plan (defaultFlags\<lparr>servers := 2\<rparr>) exampleHosts ! 1) = AdditionalControlPlane
   \<and> role (plan (defaultFlags\<lparr>servers := 2\<rparr>) exampleHosts ! 2) = Worker
   \<and> controlPlaneCount (plan (defaultFlags\<lparr>servers := 2\<rparr>) exampleHosts) = 2
   \<and> workerCount (plan (defaultFlags\<lparr>servers := 2\<rparr>) exampleHosts) = 1"
proof -
  let ?fl = "defaultFlags\<lparr>servers := 2\<rparr>"
  have h1: "exampleHosts \<noteq> []" by (simp add: exampleHosts_def)
  have h2: "1 \<le> servers ?fl" by simp
  have n: "length exampleHosts = 3" "nodeLimit ?fl = 0" "servers ?fl = 2"
    by (simp_all add: exampleHosts_def defaultFlags_def)
  note T = C1_roles_by_position [OF h1 h2]
  from T have len: "length (plan ?fl exampleHosts) = 3" unfolding n by simp
  from T have r: "\<forall>i < 3.
             (role (plan ?fl exampleHosts ! i) = PrimaryControlPlane \<longleftrightarrow> i = 0)
           \<and> (role (plan ?fl exampleHosts ! i) = AdditionalControlPlane \<longleftrightarrow> 0 < i \<and> int i < 2)
           \<and> (role (plan ?fl exampleHosts ! i) = Worker \<longleftrightarrow> 0 < i \<and> 2 \<le> int i)"
    unfolding len n by blast
  from T have c: "controlPlaneCount (plan ?fl exampleHosts) = 2"
    "workerCount (plan ?fl exampleHosts) = 1"
    unfolding len n by simp_all
  from r have "role (plan ?fl exampleHosts ! 0) = PrimaryControlPlane"
    "role (plan ?fl exampleHosts ! 1) = AdditionalControlPlane"
    "role (plan ?fl exampleHosts ! 2) = Worker"
    by simp_all
  with h1 h2 len c show ?thesis by blast
qed

text \<open>
  C1 as stated fails when the limit cuts the run short: with three hosts, \<open>servers = 3\<close>
  and \<open>limit = 1\<close> one block is produced, so one host has a control-plane role and not
  \<open>min 3 3 = 3\<close>.
\<close>

theorem C1_counterexample:
  "length exampleHosts = 3 \<and> servers (defaultFlags\<lparr>nodeLimit := 1\<rparr>) = 3
   \<and> controlPlaneCount (plan (defaultFlags\<lparr>nodeLimit := 1\<rparr>) exampleHosts) = 1
   \<and> controlPlaneCount (plan (defaultFlags\<lparr>nodeLimit := 1\<rparr>) exampleHosts)
       \<noteq> min (nat (servers (defaultFlags\<lparr>nodeLimit := 1\<rparr>))) (length exampleHosts)"
  by code_simp

text \<open>
  C2. When the limit \<open>L\<close> is positive and smaller than the number of hosts, the plan has
  exactly \<open>L\<close> blocks, and they are the blocks (roles and texts alike) of the run on the
  first \<open>L\<close> hosts, with the same limit or with none. When the limit is zero or negative,
  every host produces a block. The output of the run is the header followed by the texts of
  the blocks.
\<close>

theorem C2_limit_truncates:
  "(0 < nodeLimit fl \<and> nodeLimit fl < int (length hosts) \<longrightarrow>
      length (plan fl hosts) = nat (nodeLimit fl)
    \<and> plan fl hosts = plan fl (take (nat (nodeLimit fl)) hosts)
    \<and> plan fl hosts = plan (fl\<lparr>nodeLimit := 0\<rparr>) (take (nat (nodeLimit fl)) hosts)
    \<and> map role (plan fl hosts)
        = map role (plan (fl\<lparr>nodeLimit := 0\<rparr>) (take (nat (nodeLimit fl)) hosts)))
   \<and> (nodeLimit fl \<le> 0 \<longrightarrow> length (plan fl hosts) = length hosts)
   \<and> stdout (RunE fl hosts)
           = ''#!/bin/sh\<newline>\<newline>'' @ concat (map renderedText (plan fl hosts)) @ ''\<newline>''"
proof (intro conjI impI)
  assume L: "0 < nodeLimit fl \<and> nodeLimit fl < int (length hosts)"
  then have "nat (nodeLimit fl) \<le> length hosts" by linarith
  with L show "length (plan fl hosts) = nat (nodeLimit fl)"
    by (simp add: length_plan)
  from L have pos: "0 < nodeLimit fl" by simp
  have same: "fl\<lparr>nodeLimit := nodeLimit fl\<rparr> = fl" by simp
  show "plan fl hosts = plan fl (take (nat (nodeLimit fl)) hosts)"
    using plan_limit [OF pos, of "nodeLimit fl" hosts] unfolding same by simp
  show trunc: "plan fl hosts = plan (fl\<lparr>nodeLimit := 0\<rparr>) (take (nat (nodeLimit fl)) hosts)"
    using plan_limit [OF pos, of 0 hosts] by simp
  show "map role (plan fl hosts)
        = map role (plan (fl\<lparr>nodeLimit := 0\<rparr>) (take (nat (nodeLimit fl)) hosts))"
    using trunc by simp
next
  assume "nodeLimit fl \<le> 0"
  then show "length (plan fl hosts) = length hosts" by (simp add: length_plan)
next
  show "stdout (RunE fl hosts)
           = ''#!/bin/sh\<newline>\<newline>'' @ concat (map renderedText (plan fl hosts)) @ ''\<newline>''"
    by (simp add: RunE_plan)
qed

theorem C2_limit_truncates_witness:
  "0 < nodeLimit (defaultFlags\<lparr>nodeLimit := 2\<rparr>)
   \<and> nodeLimit (defaultFlags\<lparr>nodeLimit := 2\<rparr>) < int (length exampleHosts)
   \<and> length (plan (defaultFlags\<lparr>nodeLimit := 2\<rparr>) exampleHosts) = 2
   \<and> map role (plan (defaultFlags\<lparr>nodeLimit := 2\<rparr>) exampleHosts)
       = map role (plan defaultFlags (take 2 exampleHosts))
   \<and> nodeLimit defaultFlags \<le> 0
   \<and> length (plan defaultFlags exampleHosts) = 3"
proof -
  let ?fl = "defaultFlags\<lparr>nodeLimit := 2\<rparr>"
  have h: "0 < nodeLimit ?fl \<and> nodeLimit ?fl < int (length exampleHosts)"
    by (simp add: exampleHosts_def)
  have z: "nodeLimit defaultFlags \<le> 0" by (simp add: defaultFlags_def)
  have e: "?fl\<lparr>nodeLimit := 0\<rparr> = defaultFlags" by (simp add: defaultFlags_def)
  have n: "nat (nodeLimit ?fl) = 2" "length exampleHosts = 3" by (simp_all add: exampleHosts_def)
  from C2_limit_truncates [of ?fl exampleHosts] h
  have a: "length (plan ?fl exampleHosts) = 2"
    "map role (plan ?fl exampleHosts) = map role (plan defaultFlags (take 2 exampleHosts))"
    unfolding e n by blast+
  from C2_limit_truncates [of defaultFlags exampleHosts] z
  have b: "length (plan defaultFlags exampleHosts) = 3" unfolding n by blast
  from h z a b show ?thesis by blast
qed

text \<open>
  C3. On a non-empty host list the first block is the primary server's: it is rendered for
  the first host and captures the token by querying that host's address. Every other block
  comes after it, names the first host's address as \<open>--server-host\<close> (so contains that address
  verbatim) and passes the captured token as \<open>--node-token "$NODE_TOKEN"\<close>. The output is
  the header followed by the texts of the blocks in this order.
\<close>

theorem C3_join_blocks_reference_primary:
  assumes "hosts \<noteq> []"
  shows \<open>role (plan fl hosts ! 0) = PrimaryControlPlane
       \<and> hostAddress (plan fl hosts ! 0) = IP (hd hosts)
       \<and> sublist (''export NODE_TOKEN=$(k3sup node-token --host '' @ IP (hd hosts)
                    @ '' --user '' @ user fl @ '')'')
            (renderedText (plan fl hosts ! 0))
       \<and> (\<forall>k < length (plan fl hosts). role (plan fl hosts ! k) \<noteq> PrimaryControlPlane \<longrightarrow>
             0 < k
           \<and> sublist (IP (hd hosts)) (renderedText (plan fl hosts ! k))
           \<and> sublist (''--server-host '' @ IP (hd hosts) @ '' '' @ bs @ ''\<newline>'')
                (renderedText (plan fl hosts ! k))
           \<and> sublist ''--node-token "$NODE_TOKEN"'' (renderedText (plan fl hosts ! k)))
       \<and> stdout (RunE fl hosts)
           = ''#!/bin/sh\<newline>\<newline>'' @ concat (map renderedText (plan fl hosts)) @ ''\<newline>''\<close>
proof -
  have first: "plan fl hosts ! 0 =
     \<lparr>hostAddress = IP (hd hosts), role = PrimaryControlPlane,
      renderedText = primaryText fl (hd hosts)\<rparr>"
    by (rule plan_0 [OF assms])
  have tok: \<open>sublist (''export NODE_TOKEN=$(k3sup node-token --host '' @ IP (hd hosts)
                    @ '' --user '' @ user fl @ '')'')
            (renderedText (plan fl hosts ! 0))\<close>
    unfolding first using primaryText_token [of "hd hosts" fl] by simp
  have joins: \<open>0 < k
           \<and> sublist (IP (hd hosts)) (renderedText (plan fl hosts ! k))
           \<and> sublist (''--server-host '' @ IP (hd hosts) @ '' '' @ bs @ ''\<newline>'')
                (renderedText (plan fl hosts ! k))
           \<and> sublist ''--node-token "$NODE_TOKEN"'' (renderedText (plan fl hosts ! k))\<close>
    if k: "k < length (plan fl hosts)" and r: "role (plan fl hosts ! k) \<noteq> PrimaryControlPlane"
    for k
  proof -
    from r have pos: "0 < k" unfolding plan_role [OF k] by (simp split: if_splits)
    let ?a = "\<lparr>serversAdded = int k, primaryServer = hd hosts, script = []\<rparr>"
    let ?w = "\<lparr>serversAdded = max 1 (servers fl), primaryServer = hd hosts, script = []\<rparr>"
    have sh: "sublist (''--server-host '' @ IP (hd hosts) @ '' '' @ bs @ ''\<newline>'')
                (renderedText (plan fl hosts ! k))"
      unfolding plan_text [OF k]
      using pos additionalText_server_host [of ?a fl "hosts ! k"]
        workerText_server_host [of ?w fl "int k" "hosts ! k"]
      by simp
    have "sublist (IP (hd hosts)) (''--server-host '' @ IP (hd hosts) @ '' '' @ bs @ ''\<newline>'')"
      by (rule sublist_appendI)
    from this sh have ip: "sublist (IP (hd hosts)) (renderedText (plan fl hosts ! k))"
      by (rule sublist_order.order.trans)
    have nt: \<open>sublist ''--node-token "$NODE_TOKEN"'' (renderedText (plan fl hosts ! k))\<close>
      unfolding plan_text [OF k]
      using pos additionalText_node_token [of fl ?a "hosts ! k"]
        workerText_node_token [of fl ?w "int k" "hosts ! k"]
      by simp
    from pos ip sh nt show ?thesis by blast
  qed
  have out: "stdout (RunE fl hosts)
           = ''#!/bin/sh\<newline>\<newline>'' @ concat (map renderedText (plan fl hosts)) @ ''\<newline>''"
    by (simp add: RunE_plan)
  from first tok joins out show ?thesis by simp
qed

theorem C3_join_blocks_reference_primary_witness:
  \<open>exampleHosts \<noteq> []
   \<and> 2 < length (plan (defaultFlags\<lparr>servers := 2\<rparr>) exampleHosts)
   \<and> role (plan (defaultFlags\<lparr>servers := 2\<rparr>) exampleHosts ! 1) \<noteq> PrimaryControlPlane
   \<and> role (plan (defaultFlags\<lparr>servers := 2\<rparr>) exampleHosts ! 2) \<noteq> PrimaryControlPlane
   \<and> sublist ''export NODE_TOKEN=$(k3sup node-token --host 192.168.128.102 --user root)''
        (renderedText (plan (defaultFlags\<lparr>servers := 2\<rparr>) exampleHosts ! 0))
   \<and> sublist ''192.168.128.102''
        (renderedText (plan (defaultFlags\<lparr>servers := 2\<rparr>) exampleHosts ! 1))
   \<and> sublist ''192.168.128.102''
        (renderedText (plan (defaultFlags\<lparr>servers := 2\<rparr>) exampleHosts ! 2))
   \<and> sublist ''--node-token "$NODE_TOKEN"''
        (renderedText (plan (defaultFlags\<lparr>servers := 2\<rparr>) exampleHosts ! 2))\<close>
proof -
  let ?fl = "defaultFlags\<lparr>servers := 2\<rparr>"
  have h: "exampleHosts \<noteq> []" by (simp add: exampleHosts_def)
  have len: "2 < length (plan ?fl exampleHosts)" by code_simp
  have r1: "role (plan ?fl exampleHosts ! 1) \<noteq> PrimaryControlPlane" by code_simp
  have r2: "role (plan ?fl exampleHosts ! 2) \<noteq> PrimaryControlPlane" by code_simp
  have ip: "IP (hd exampleHosts) = ''192.168.128.102''" by (simp add: exampleHosts_def)
  have u: "user ?fl = ''root''" by (simp add: defaultFlags_def)
  note T = C3_join_blocks_reference_primary [OF h, of ?fl, unfolded ip u]
  from T have tok: "sublist ''export NODE_TOKEN=$(k3sup node-token --host 192.168.128.102 --user root)''
        (renderedText (plan ?fl exampleHosts ! 0))"
    by simp
  from T len r1 have a: "sublist ''192.168.128.102'' (renderedText (plan ?fl exampleHosts ! 1))"
    by simp
  from T len r2 have b: "sublist ''192.168.128.102'' (renderedText (plan ?fl exampleHosts ! 2))"
    \<open>sublist ''--node-token "$NODE_TOKEN"'' (renderedText (plan ?fl exampleHosts ! 2))\<close>
    by simp_all
  from h len r1 r2 tok a b show ?thesis by blast
qed

text \<open>
  C4 (as amended). A primary or additional-server block contains the TLS-SAN clause iff
  \<open>tlsSan\<close> is non-empty: its text is a fixed text with one slot, filled by the clause
  \<open>\<dots> --tls-san t\<close> when the value \<open>t\<close> is non-empty and by nothing when it is empty. A worker
  block has no such slot: its text is the same for every value of \<open>tlsSan\<close>. When no other
  flag value and no host address contains \<open>--tls-san\<close>, the text of a block contains
  \<open>--tls-san\<close> iff \<open>tlsSan\<close> is non-empty and the block is not a worker block. The output
  of the run is the header followed by the texts of the blocks.
\<close>

theorem C4_tls_san_clause:
  assumes "k < length (plan fl hosts)"
  shows \<open>(role (plan fl hosts ! k) \<noteq> Worker \<and> tlsSan fl \<noteq> [] \<longrightarrow>
            sublist ('' '' @ bs @ ''\<newline>--tls-san '' @ tlsSan fl)
              (renderedText (plan fl hosts ! k)))
       \<and> (role (plan fl hosts ! k) \<noteq> Worker \<longrightarrow>
            (\<exists>pre post. \<forall>t. renderedText (plan (fl\<lparr>tlsSan := t\<rparr>) hosts ! k) =
               pre @ (if t = [] then [] else '' '' @ bs @ ''\<newline>--tls-san '' @ t) @ post))
       \<and> (role (plan fl hosts ! k) = Worker \<longrightarrow>
            (\<forall>t. renderedText (plan (fl\<lparr>tlsSan := t\<rparr>) hosts ! k)
                 = renderedText (plan fl hosts ! k)))
       \<and> ((\<forall>s \<in> set ([user fl, kubeconfig fl, contextName fl, serverK3sExtraArgs fl,
                        agentK3sExtraArgs fl] @ map IP hosts). \<not> sublist ''--tls-san'' s) \<longrightarrow>
            (sublist ''--tls-san'' (renderedText (plan fl hosts ! k))
              \<longleftrightarrow> tlsSan fl \<noteq> [] \<and> role (plan fl hosts ! k) \<noteq> Worker))
       \<and> stdout (RunE fl hosts)
           = ''#!/bin/sh\<newline>\<newline>'' @ concat (map renderedText (plan fl hosts)) @ ''\<newline>''\<close>
proof -
  let ?a = "\<lparr>serversAdded = int k, primaryServer = hd hosts, script = []\<rparr>"
  let ?w = "\<lparr>serversAdded = max 1 (servers fl), primaryServer = hd hosts, script = []\<rparr>"
  let ?clause = "\<lambda>t. if t = [] then [] else '' '' @ bs @ ''\<newline>--tls-san '' @ t"
  have k': "k < length (plan (fl\<lparr>tlsSan := t\<rparr>) hosts)" for t
    using assms length_plan_flags [of "fl\<lparr>tlsSan := t\<rparr>" fl hosts] by simp
  have same: "fl\<lparr>tlsSan := tlsSan fl\<rparr> = fl" by simp
  have kn: "k < length hosts" using assms by (simp add: length_plan split: if_splits)
  then have ne: "hosts \<noteq> []" by auto
  have slot: "role (plan fl hosts ! k) \<noteq> Worker \<Longrightarrow>
      \<exists>pre post. \<forall>t. renderedText (plan (fl\<lparr>tlsSan := t\<rparr>) hosts ! k) = pre @ ?clause t @ post"
  proof -
    assume r: "role (plan fl hosts ! k) \<noteq> Worker"
    show ?thesis
    proof (cases "k = 0")
      case True
      from primaryText_tlsSan [of fl "hd hosts"] obtain pre post where
        "\<forall>t. primaryText (fl\<lparr>tlsSan := t\<rparr>) (hd hosts) = pre @ ?clause t @ post" by blast
      then have "\<forall>t. renderedText (plan (fl\<lparr>tlsSan := t\<rparr>) hosts ! k) = pre @ ?clause t @ post"
        unfolding plan_text [OF k'] using True by simp
      then show ?thesis by blast
    next
      case False
      with r have lt: "int k < servers fl" unfolding plan_role [OF assms] by (simp split: if_splits)
      from additionalText_slots [of fl ?a "hosts ! k"] obtain head where
        h: "\<forall>t b. additionalText (fl\<lparr>tlsSan := t, background := b\<rparr>) ?a (hosts ! k) =
          head @ ?clause t @ serverExtraArgsSt fl @ (if b then '' &'' else []) @ ''\<newline>''"
        by blast
      have "renderedText (plan (fl\<lparr>tlsSan := t\<rparr>) hosts ! k) =
          head @ ?clause t @ (serverExtraArgsSt fl @ bgStr fl @ ''\<newline>'')" for t
      proof -
        have "fl\<lparr>tlsSan := t, background := background fl\<rparr> = fl\<lparr>tlsSan := t\<rparr>" by simp
        moreover have "additionalText (fl\<lparr>tlsSan := t, background := background fl\<rparr>) ?a (hosts ! k) =
          head @ ?clause t @ serverExtraArgsSt fl
            @ (if background fl then '' &'' else []) @ ''\<newline>''"
          by (rule h [rule_format])
        ultimately show ?thesis
          unfolding plan_text [OF k'] bgStr_def using False lt by simp
      qed
      then show ?thesis by blast
    qed
  qed
  have present: "role (plan fl hosts ! k) \<noteq> Worker \<Longrightarrow> tlsSan fl \<noteq> [] \<Longrightarrow>
      sublist ('' '' @ bs @ ''\<newline>--tls-san '' @ tlsSan fl) (renderedText (plan fl hosts ! k))"
  proof -
    assume r: "role (plan fl hosts ! k) \<noteq> Worker" and t: "tlsSan fl \<noteq> []"
    from slot [OF r] obtain pre post where
      "\<forall>t. renderedText (plan (fl\<lparr>tlsSan := t\<rparr>) hosts ! k) = pre @ ?clause t @ post" by blast
    from this [rule_format, of "tlsSan fl"] t
    have "renderedText (plan fl hosts ! k)
        = pre @ ('' '' @ bs @ ''\<newline>--tls-san '' @ tlsSan fl) @ post"
      unfolding same by simp
    then show ?thesis by (simp only: sublist_appendI)
  qed
  have worker: "role (plan fl hosts ! k) = Worker \<Longrightarrow>
      \<forall>t. renderedText (plan (fl\<lparr>tlsSan := t\<rparr>) hosts ! k) = renderedText (plan fl hosts ! k)"
  proof -
    assume r: "role (plan fl hosts ! k) = Worker"
    then have c: "k \<noteq> 0" "\<not> int k < servers fl"
      unfolding plan_role [OF assms] by (simp_all split: if_splits)
    from workerText_slots [of fl ?w "int k" "hosts ! k"] obtain head where
      h: "\<forall>t b. workerText (fl\<lparr>tlsSan := t, background := b\<rparr>) ?w (int k) (hosts ! k) =
          head @ (if b then '' &'' else []) @ ''\<newline>''"
      by blast
    have "renderedText (plan (fl\<lparr>tlsSan := t\<rparr>) hosts ! k)
        = head @ (if background fl then '' &'' else []) @ ''\<newline>''" for t
    proof -
      have "fl\<lparr>tlsSan := t, background := background fl\<rparr> = fl\<lparr>tlsSan := t\<rparr>" by simp
      moreover have "workerText (fl\<lparr>tlsSan := t, background := background fl\<rparr>) ?w (int k) (hosts ! k) =
          head @ (if background fl then '' &'' else []) @ ''\<newline>''"
        by (rule h [rule_format])
      ultimately show ?thesis
        unfolding plan_text [OF k'] using c by simp
    qed
    from this [of "tlsSan fl"] this show ?thesis unfolding same by simp
  qed
  have textual: "sublist ''--tls-san'' (renderedText (plan fl hosts ! k))
              \<longleftrightarrow> tlsSan fl \<noteq> [] \<and> role (plan fl hosts ! k) \<noteq> Worker"
    if hyg: "\<forall>s \<in> set ([user fl, kubeconfig fl, contextName fl, serverK3sExtraArgs fl,
                        agentK3sExtraArgs fl] @ map IP hosts). \<not> sublist ''--tls-san'' s"
  proof -
    from hyg kn ne have ips: "\<not> sublist ''--tls-san'' (IP (hosts ! k))"
      "\<not> sublist ''--tls-san'' (IP (hd hosts))"
      by (simp_all add: hd_conv_nth)
    from hyg have fs: "\<not> sublist ''--tls-san'' (user fl)" "\<not> sublist ''--tls-san'' (kubeconfig fl)"
      "\<not> sublist ''--tls-san'' (contextName fl)" "\<not> sublist ''--tls-san'' (serverK3sExtraArgs fl)"
      "\<not> sublist ''--tls-san'' (agentK3sExtraArgs fl)"
      by simp_all
    show ?thesis
    proof (cases "role (plan fl hosts ! k) = Worker")
      case True
      then have c: "k \<noteq> 0" "\<not> int k < servers fl"
        unfolding plan_role [OF assms] by (simp_all split: if_splits)
      have "\<not> sublist ''--tls-san'' (renderedText (plan fl hosts ! k))"
        unfolding plan_text [OF assms] using c notls_worker [of "hosts ! k" ?w fl "int k"] ips fs
        by simp
      with True show ?thesis by simp
    next
      case False
      show ?thesis
      proof (cases "tlsSan fl = []")
        case True
        have "\<not> sublist ''--tls-san'' (renderedText (plan fl hosts ! k))"
          unfolding plan_text [OF assms]
          using notls_primary [of "hd hosts" fl] notls_additional [of "hosts ! k" ?a fl] ips fs True
          False plan_role [OF assms]
          by (simp split: if_splits)
        with True show ?thesis by simp
      next
        case nonempty: False
        have "sublist ''--tls-san'' ('' '' @ bs @ ''\<newline>--tls-san '' @ tlsSan fl)"
          unfolding cons_form
          by ((rule prefix_imp_sublist, (simp; fail)) | rule sublist_skip)+
        from this present [OF False nonempty]
        have "sublist ''--tls-san'' (renderedText (plan fl hosts ! k))"
          by (rule sublist_order.order.trans)
        with False nonempty show ?thesis by simp
      qed
    qed
  qed
  have out: "stdout (RunE fl hosts)
           = ''#!/bin/sh\<newline>\<newline>'' @ concat (map renderedText (plan fl hosts)) @ ''\<newline>''"
    by (simp add: RunE_plan)
  from slot present worker textual out show ?thesis by blast
qed

theorem C4_tls_san_clause_witness:
  \<open>1 < length (plan (defaultFlags\<lparr>servers := 2, tlsSan := ''192.168.128.100''\<rparr>) exampleHosts)
   \<and> role (plan (defaultFlags\<lparr>servers := 2, tlsSan := ''192.168.128.100''\<rparr>) exampleHosts ! 1)
       \<noteq> Worker
   \<and> tlsSan (defaultFlags\<lparr>servers := 2, tlsSan := ''192.168.128.100''\<rparr>) \<noteq> []
   \<and> sublist ('' '' @ bs @ ''\<newline>--tls-san 192.168.128.100'')
        (renderedText
          (plan (defaultFlags\<lparr>servers := 2, tlsSan := ''192.168.128.100''\<rparr>) exampleHosts ! 1))
   \<and> 2 < length (plan (defaultFlags\<lparr>servers := 2, tlsSan := ''192.168.128.100''\<rparr>) exampleHosts)
   \<and> role (plan (defaultFlags\<lparr>servers := 2, tlsSan := ''192.168.128.100''\<rparr>) exampleHosts ! 2)
       = Worker
   \<and> renderedText
        (plan (defaultFlags\<lparr>servers := 2, tlsSan := ''192.168.128.100''\<rparr>\<lparr>tlsSan := []\<rparr>)
           exampleHosts ! 2)
       = renderedText
          (plan (defaultFlags\<lparr>servers := 2, tlsSan := ''192.168.128.100''\<rparr>) exampleHosts ! 2)
   \<and> \<not> sublist ''--tls-san''
        (renderedText
          (plan (defaultFlags\<lparr>servers := 2, tlsSan := ''192.168.128.100''\<rparr>) exampleHosts ! 2))\<close>
proof -
  let ?fl = "defaultFlags\<lparr>servers := 2, tlsSan := ''192.168.128.100''\<rparr>"
  have k1: "1 < length (plan ?fl exampleHosts)" by code_simp
  have k2: "2 < length (plan ?fl exampleHosts)" by code_simp
  have r1: "role (plan ?fl exampleHosts ! 1) \<noteq> Worker" by code_simp
  have r2: "role (plan ?fl exampleHosts ! 2) = Worker" by code_simp
  have t: "tlsSan ?fl \<noteq> []" by simp
  have tv: "tlsSan ?fl = ''192.168.128.100''" by simp
  have hyg: "\<forall>s \<in> set ([user ?fl, kubeconfig ?fl, contextName ?fl, serverK3sExtraArgs ?fl,
      agentK3sExtraArgs ?fl] @ map IP exampleHosts). \<not> sublist ''--tls-san'' s"
    by code_simp
  from C4_tls_san_clause [OF k1] r1 t
  have a: "sublist ('' '' @ bs @ ''\<newline>--tls-san '' @ ''192.168.128.100'')
      (renderedText (plan ?fl exampleHosts ! 1))"
    unfolding tv by blast
  from C4_tls_san_clause [OF k2] r2
  have b: "renderedText (plan (?fl\<lparr>tlsSan := []\<rparr>) exampleHosts ! 2)
      = renderedText (plan ?fl exampleHosts ! 2)"
    by blast
  from C4_tls_san_clause [OF k2] r2 hyg
  have c: "\<not> sublist ''--tls-san'' (renderedText (plan ?fl exampleHosts ! 2))"
    by blast
  from a have a': "sublist ('' '' @ bs @ ''\<newline>--tls-san 192.168.128.100'')
      (renderedText (plan ?fl exampleHosts ! 1))"
    by simp
  from k1 r1 t a' k2 r2 b c show ?thesis by blast
qed

text \<open>
  C4 as stated fails for worker blocks: with \<open>servers = 2\<close> and a non-empty \<open>tlsSan\<close> the
  third of three hosts is a worker, and its text contains neither the clause nor the
  option \<open>--tls-san\<close> at all.
\<close>

theorem C4_counterexample:
  "tlsSan (defaultFlags\<lparr>servers := 2, tlsSan := ''192.168.128.100''\<rparr>) \<noteq> []
   \<and> tlsSanStr (defaultFlags\<lparr>servers := 2, tlsSan := ''192.168.128.100''\<rparr>) \<noteq> []
   \<and> role (plan (defaultFlags\<lparr>servers := 2, tlsSan := ''192.168.128.100''\<rparr>) exampleHosts ! 2)
       = Worker
   \<and> \<not> sublist (tlsSanStr (defaultFlags\<lparr>servers := 2, tlsSan := ''192.168.128.100''\<rparr>))
        (renderedText
          (plan (defaultFlags\<lparr>servers := 2, tlsSan := ''192.168.128.100''\<rparr>) exampleHosts ! 2))
   \<and> \<not> sublist ''--tls-san''
        (renderedText
          (plan (defaultFlags\<lparr>servers := 2, tlsSan := ''192.168.128.100''\<rparr>) exampleHosts ! 2))"
  by code_simp

text \<open>
  C5 (as amended). An additional-server or worker block ends with the background suffix
  \<open>&\<close> (followed only by the newline that closes the command) when \<open>background\<close> is set:
  its text is a fixed body, then the suffix iff the flag is set, then the newline. The text
  of the primary block is the same whatever the flag is. Provided no flag value and no host
  address itself contains the character \<open>&\<close>, the text of a block contains \<open>&\<close>, and ends
  with the suffix, iff the flag is set and the block is not the primary block. The output
  of the run is the header followed by the texts of the blocks.
\<close>

theorem C5_background_suffix:
  assumes "k < length (plan fl hosts)"
  shows "(role (plan fl hosts ! k) \<noteq> PrimaryControlPlane \<and> background fl \<longrightarrow>
            suffix '' &\<newline>'' (renderedText (plan fl hosts ! k)))
       \<and> (role (plan fl hosts ! k) \<noteq> PrimaryControlPlane \<longrightarrow>
            (\<exists>body. \<forall>b. renderedText (plan (fl\<lparr>background := b\<rparr>) hosts ! k) =
               body @ (if b then '' &'' else []) @ ''\<newline>''))
       \<and> (role (plan fl hosts ! k) = PrimaryControlPlane \<longrightarrow>
            (\<forall>b. renderedText (plan (fl\<lparr>background := b\<rparr>) hosts ! k)
                 = renderedText (plan fl hosts ! k)))
       \<and> ((\<forall>s \<in> set ([user fl, kubeconfig fl, contextName fl, tlsSan fl, serverK3sExtraArgs fl,
                        agentK3sExtraArgs fl] @ map IP hosts). CHR ''&'' \<notin> set s) \<longrightarrow>
            (CHR ''&'' \<in> set (renderedText (plan fl hosts ! k))
              \<longleftrightarrow> background fl \<and> role (plan fl hosts ! k) \<noteq> PrimaryControlPlane)
          \<and> (suffix '' &\<newline>'' (renderedText (plan fl hosts ! k))
              \<longleftrightarrow> background fl \<and> role (plan fl hosts ! k) \<noteq> PrimaryControlPlane))
       \<and> stdout (RunE fl hosts)
           = ''#!/bin/sh\<newline>\<newline>'' @ concat (map renderedText (plan fl hosts)) @ ''\<newline>''"
proof -
  let ?a = "\<lparr>serversAdded = int k, primaryServer = hd hosts, script = []\<rparr>"
  let ?w = "\<lparr>serversAdded = max 1 (servers fl), primaryServer = hd hosts, script = []\<rparr>"
  let ?bg = "\<lambda>b. if b then '' &'' else []"
  have k': "k < length (plan (fl\<lparr>background := b\<rparr>) hosts)" for b
    using assms length_plan_flags [of "fl\<lparr>background := b\<rparr>" fl hosts] by simp
  have same: "fl\<lparr>background := background fl\<rparr> = fl" by simp
  have kn: "k < length hosts" using assms by (simp add: length_plan split: if_splits)
  then have ne: "hosts \<noteq> []" by auto
  have e: "fl\<lparr>tlsSan := tlsSan fl, background := b\<rparr> = fl\<lparr>background := b\<rparr>" for b by simp
  have slot: "\<exists>body. \<forall>b. renderedText (plan (fl\<lparr>background := b\<rparr>) hosts ! k) =
      body @ ?bg b @ ''\<newline>''"
    if r: "role (plan fl hosts ! k) \<noteq> PrimaryControlPlane"
  proof -
    from r have pos: "k \<noteq> 0" unfolding plan_role [OF assms] by (simp split: if_splits)
    show ?thesis
    proof (cases "int k < servers fl")
      case True
      from additionalText_slots [of fl ?a "hosts ! k"] obtain head where
        h: "\<forall>t b. additionalText (fl\<lparr>tlsSan := t, background := b\<rparr>) ?a (hosts ! k) =
          head @ (if t = [] then [] else '' '' @ bs @ ''\<newline>--tls-san '' @ t)
            @ serverExtraArgsSt fl @ ?bg b @ ''\<newline>''"
        by (elim exE)
      have "renderedText (plan (fl\<lparr>background := b\<rparr>) hosts ! k) =
          (head @ tlsSanStr fl @ serverExtraArgsSt fl) @ ?bg b @ ''\<newline>''" for b
      proof -
        have "additionalText (fl\<lparr>tlsSan := tlsSan fl, background := b\<rparr>) ?a (hosts ! k) =
          head @ (if tlsSan fl = [] then [] else '' '' @ bs @ ''\<newline>--tls-san '' @ tlsSan fl)
            @ serverExtraArgsSt fl @ ?bg b @ ''\<newline>''"
          by (rule h [rule_format])
        then show ?thesis
          unfolding plan_text [OF k'] e tlsSanStr_def using pos True by simp
      qed
      then have "\<forall>b. renderedText (plan (fl\<lparr>background := b\<rparr>) hosts ! k) =
          (head @ tlsSanStr fl @ serverExtraArgsSt fl) @ ?bg b @ ''\<newline>''"
        by (rule allI)
      then show ?thesis by (intro exI)
    next
      case False
      from workerText_slots [of fl ?w "int k" "hosts ! k"] obtain head where
        h: "\<forall>t b. workerText (fl\<lparr>tlsSan := t, background := b\<rparr>) ?w (int k) (hosts ! k) =
          head @ ?bg b @ ''\<newline>''"
        by (elim exE)
      have "renderedText (plan (fl\<lparr>background := b\<rparr>) hosts ! k) = head @ ?bg b @ ''\<newline>''" for b
      proof -
        have "workerText (fl\<lparr>tlsSan := tlsSan fl, background := b\<rparr>) ?w (int k) (hosts ! k) =
          head @ ?bg b @ ''\<newline>''"
          by (rule h [rule_format])
        then show ?thesis
          unfolding plan_text [OF k'] e using pos False by simp
      qed
      then have "\<forall>b. renderedText (plan (fl\<lparr>background := b\<rparr>) hosts ! k) =
          head @ ?bg b @ ''\<newline>''"
        by (rule allI)
      then show ?thesis by (intro exI)
    qed
  qed
  have ends: "suffix '' &\<newline>'' (renderedText (plan fl hosts ! k))"
    if r: "role (plan fl hosts ! k) \<noteq> PrimaryControlPlane" and b: "background fl"
  proof -
    from slot [OF r] obtain body where
      "\<forall>b. renderedText (plan (fl\<lparr>background := b\<rparr>) hosts ! k) = body @ ?bg b @ ''\<newline>''"
      by (elim exE)
    then have "renderedText (plan (fl\<lparr>background := background fl\<rparr>) hosts ! k)
        = body @ ?bg (background fl) @ ''\<newline>''"
      by (rule spec)
    then have "renderedText (plan fl hosts ! k) = body @ '' &\<newline>''"
      unfolding same using b by simp
    then show ?thesis by (simp add: suffix_def)
  qed
  have primary: "\<forall>b. renderedText (plan (fl\<lparr>background := b\<rparr>) hosts ! k)
      = renderedText (plan fl hosts ! k)"
    if r: "role (plan fl hosts ! k) = PrimaryControlPlane"
  proof
    fix b
    from r have z: "k = 0" unfolding plan_role [OF assms] by (simp split: if_splits)
    show "renderedText (plan (fl\<lparr>background := b\<rparr>) hosts ! k) = renderedText (plan fl hosts ! k)"
      unfolding plan_text [OF k'] plan_text [OF assms] using z
      by (simp add: primaryText_background)
  qed
  have textual: "(CHR ''&'' \<in> set (renderedText (plan fl hosts ! k))
              \<longleftrightarrow> background fl \<and> role (plan fl hosts ! k) \<noteq> PrimaryControlPlane)
          \<and> (suffix '' &\<newline>'' (renderedText (plan fl hosts ! k))
              \<longleftrightarrow> background fl \<and> role (plan fl hosts ! k) \<noteq> PrimaryControlPlane)"
    if hyg: "\<forall>s \<in> set ([user fl, kubeconfig fl, contextName fl, tlsSan fl, serverK3sExtraArgs fl,
                        agentK3sExtraArgs fl] @ map IP hosts). CHR ''&'' \<notin> set s"
  proof -
    from hyg kn ne have ips: "CHR ''&'' \<notin> set (IP (hosts ! k))" "CHR ''&'' \<notin> set (IP (hd hosts))"
      by (simp_all add: hd_conv_nth)
    from hyg have fs: "CHR ''&'' \<notin> set (user fl)" "CHR ''&'' \<notin> set (kubeconfig fl)"
      "CHR ''&'' \<notin> set (contextName fl)" "CHR ''&'' \<notin> set (tlsSan fl)"
      "CHR ''&'' \<notin> set (serverK3sExtraArgs fl)" "CHR ''&'' \<notin> set (agentK3sExtraArgs fl)"
      by simp_all
    have amp: "CHR ''&'' \<in> set (renderedText (plan fl hosts ! k))
              \<longleftrightarrow> background fl \<and> role (plan fl hosts ! k) \<noteq> PrimaryControlPlane"
      unfolding plan_text [OF assms] plan_role [OF assms]
      using amp_primary [of "hd hosts" fl] amp_additional [of "hosts ! k" ?a fl]
        amp_worker [of "hosts ! k" ?w fl "int k"] ips fs
      by simp
    have "CHR ''&'' \<in> set (renderedText (plan fl hosts ! k))"
      if "suffix '' &\<newline>'' (renderedText (plan fl hosts ! k))"
      using set_mono_suffix [OF that] by simp
    with amp ends show ?thesis by blast
  qed
  have out: "stdout (RunE fl hosts)
           = ''#!/bin/sh\<newline>\<newline>'' @ concat (map renderedText (plan fl hosts)) @ ''\<newline>''"
    by (simp add: RunE_plan)
  from ends slot primary textual out show ?thesis by blast
qed

theorem C5_background_suffix_witness:
  "1 < length (plan (defaultFlags\<lparr>background := True\<rparr>) exampleHosts)
   \<and> role (plan (defaultFlags\<lparr>background := True\<rparr>) exampleHosts ! 1) \<noteq> PrimaryControlPlane
   \<and> background (defaultFlags\<lparr>background := True\<rparr>)
   \<and> suffix '' &\<newline>'' (renderedText (plan (defaultFlags\<lparr>background := True\<rparr>) exampleHosts ! 1))
   \<and> 0 < length (plan (defaultFlags\<lparr>background := True\<rparr>) exampleHosts)
   \<and> role (plan (defaultFlags\<lparr>background := True\<rparr>) exampleHosts ! 0) = PrimaryControlPlane
   \<and> renderedText (plan (defaultFlags\<lparr>background := True\<rparr>\<lparr>background := False\<rparr>) exampleHosts ! 0)
       = renderedText (plan (defaultFlags\<lparr>background := True\<rparr>) exampleHosts ! 0)
   \<and> CHR ''&'' \<notin> set (renderedText (plan (defaultFlags\<lparr>background := True\<rparr>) exampleHosts ! 0))"
proof -
  let ?fl = "defaultFlags\<lparr>background := True\<rparr>"
  have k0: "0 < length (plan ?fl exampleHosts)" by code_simp
  have k1: "1 < length (plan ?fl exampleHosts)" by code_simp
  have r0: "role (plan ?fl exampleHosts ! 0) = PrimaryControlPlane" by code_simp
  have r1: "role (plan ?fl exampleHosts ! 1) \<noteq> PrimaryControlPlane" by code_simp
  have b: "background ?fl" by simp
  have hyg: "\<forall>s \<in> set ([user ?fl, kubeconfig ?fl, contextName ?fl, tlsSan ?fl,
      serverK3sExtraArgs ?fl, agentK3sExtraArgs ?fl] @ map IP exampleHosts). CHR ''&'' \<notin> set s"
    by code_simp
  from C5_background_suffix [OF k1] r1 b
  have a: "suffix '' &\<newline>'' (renderedText (plan ?fl exampleHosts ! 1))"
    by blast
  from C5_background_suffix [OF k0] r0
  have c: "renderedText (plan (?fl\<lparr>background := False\<rparr>) exampleHosts ! 0)
      = renderedText (plan ?fl exampleHosts ! 0)"
    by blast
  from C5_background_suffix [OF k0] r0 hyg
  have d: "CHR ''&'' \<notin> set (renderedText (plan ?fl exampleHosts ! 0))"
    by blast
  from k1 r1 b a k0 r0 c d show ?thesis by blast
qed

text \<open>
  C5 as stated fails when a flag value itself ends with the characters of the suffix: with
  the user \<open>u &\<close>, \<open>servers = 1\<close> and \<open>background\<close> off, the second block is a worker whose
  text ends with \<open>&\<close> and the newline, and the text of the primary block contains \<open>&\<close>.
\<close>

theorem C5_counterexample:
  "\<not> background (defaultFlags\<lparr>servers := 1, user := ''u &''\<rparr>)
   \<and> role (plan (defaultFlags\<lparr>servers := 1, user := ''u &''\<rparr>) exampleHosts ! 1) = Worker
   \<and> suffix '' &\<newline>''
        (renderedText (plan (defaultFlags\<lparr>servers := 1, user := ''u &''\<rparr>) exampleHosts ! 1))
   \<and> role (plan (defaultFlags\<lparr>servers := 1, user := ''u &''\<rparr>) exampleHosts ! 0)
       = PrimaryControlPlane
   \<and> sublist '' &''
        (renderedText (plan (defaultFlags\<lparr>servers := 1, user := ''u &''\<rparr>) exampleHosts ! 0))"
  by code_simp

text \<open>
  C6. With \<open>servers \<le> 0\<close> the run is the run with \<open>servers = 1\<close>: the same blocks and the
  same output. On a non-empty host list the first host is the primary server, no host is
  an additional server, and every later processed host is a worker. The output of the run
  is the header followed by the texts of the blocks.
\<close>

theorem C6_servers_nonpositive:
  assumes "hosts \<noteq> []" and "servers fl \<le> 0"
  shows "plan fl hosts = plan (fl\<lparr>servers := 1\<rparr>) hosts
       \<and> RunE fl hosts = RunE (fl\<lparr>servers := 1\<rparr>) hosts
       \<and> role (plan fl hosts ! 0) = PrimaryControlPlane
       \<and> (\<forall>i < length (plan fl hosts).
             role (plan fl hosts ! i) = (if i = 0 then PrimaryControlPlane else Worker))
       \<and> stdout (RunE fl hosts)
           = ''#!/bin/sh\<newline>\<newline>'' @ concat (map renderedText (plan fl hosts)) @ ''\<newline>''"
proof -
  have eq: "plan fl hosts = plan (fl\<lparr>servers := 1\<rparr>) hosts"
    by (rule plan_servers_nonpos [OF assms(2)])
  have run: "RunE fl hosts = RunE (fl\<lparr>servers := 1\<rparr>) hosts"
    unfolding RunE_plan eq ..
  have first: "role (plan fl hosts ! 0) = PrimaryControlPlane"
    using assms(1) by (simp add: plan_0)
  have roles: "\<forall>i < length (plan fl hosts).
             role (plan fl hosts ! i) = (if i = 0 then PrimaryControlPlane else Worker)"
    using assms(2) by (simp add: plan_role)
  have out: "stdout (RunE fl hosts)
           = ''#!/bin/sh\<newline>\<newline>'' @ concat (map renderedText (plan fl hosts)) @ ''\<newline>''"
    by (simp add: RunE_plan)
  from eq run first roles out show ?thesis by blast
qed

theorem C6_servers_nonpositive_witness:
  "exampleHosts \<noteq> [] \<and> servers (defaultFlags\<lparr>servers := -2\<rparr>) \<le> 0
   \<and> RunE (defaultFlags\<lparr>servers := -2\<rparr>) exampleHosts
       = RunE (defaultFlags\<lparr>servers := 1\<rparr>) exampleHosts
   \<and> map role (plan (defaultFlags\<lparr>servers := -2\<rparr>) exampleHosts)
       = [PrimaryControlPlane, Worker, Worker]"
proof -
  let ?fl = "defaultFlags\<lparr>servers := -2\<rparr>"
  have h1: "exampleHosts \<noteq> []" by (simp add: exampleHosts_def)
  have h2: "servers ?fl \<le> 0" by simp
  have e: "?fl\<lparr>servers := 1\<rparr> = defaultFlags\<lparr>servers := 1\<rparr>" by simp
  note T = C6_servers_nonpositive [OF h1 h2]
  from T have run: "RunE ?fl exampleHosts = RunE (defaultFlags\<lparr>servers := 1\<rparr>) exampleHosts"
    unfolding e by blast
  from T have "plan ?fl exampleHosts = plan (defaultFlags\<lparr>servers := 1\<rparr>) exampleHosts"
    unfolding e by blast
  moreover have "map role (plan (defaultFlags\<lparr>servers := 1\<rparr>) exampleHosts)
       = [PrimaryControlPlane, Worker, Worker]"
    by code_simp
  ultimately have "map role (plan ?fl exampleHosts) = [PrimaryControlPlane, Worker, Worker]"
    by simp
  with h1 h2 run show ?thesis by blast
qed

text \<open>
  C7. A worker block opens with the marker that names its ordinal among the worker
  blocks: for the block at index \<open>k\<close> this is the number of worker blocks up to and
  including it, which is also its 1-based position \<open>k + 1\<close> minus the number of
  control-plane blocks before it. The limit plays no part in this. The output of the run
  is the header followed by the texts of the blocks.
\<close>

theorem C7_worker_ordinal:
  assumes "k < length (plan fl hosts)" and "role (plan fl hosts ! k) = Worker"
  shows \<open>prefix (''\<newline>echo "Setting up worker: ''
                  @ fmt_d (int (workerCount (take (Suc k) (plan fl hosts)))) @ ''"\<newline>'')
           (renderedText (plan fl hosts ! k))
       \<and> int (workerCount (take (Suc k) (plan fl hosts)))
           = (int k + 1) - int (controlPlaneCount (take k (plan fl hosts)))
       \<and> 1 \<le> workerCount (take (Suc k) (plan fl hosts))
       \<and> stdout (RunE fl hosts)
           = ''#!/bin/sh\<newline>\<newline>'' @ concat (map renderedText (plan fl hosts)) @ ''\<newline>''\<close>
proof -
  define c where "c = max 1 (servers fl)"
  from assms have pos: "0 < k" and ge: "servers fl \<le> int k"
    by (simp_all add: plan_role split: if_splits)
  then have ck: "c \<le> int k" "1 \<le> c" by (simp_all add: c_def)
  have w: "workerCount (take (Suc k) (plan fl hosts)) = Suc k - nat c"
    unfolding c_def using assms(1) by (intro workerCount_take) simp
  have "nat c \<le> k" using ck by linarith
  then have cp: "controlPlaneCount (take k (plan fl hosts)) = nat c"
    using controlPlaneCount_take [of k fl hosts] assms(1) unfolding c_def by simp
  have ord: "int (workerCount (take (Suc k) (plan fl hosts))) = (int k + 1) - c"
    unfolding w using ck by simp
  have rtext: "renderedText (plan fl hosts ! k) =
     workerText fl \<lparr>serversAdded = c, primaryServer = hd hosts, script = []\<rparr> (int k) (hosts ! k)"
    unfolding c_def using plan_nth_pos [OF pos assms(1)] ge by simp
  have \<open>prefix (''\<newline>echo "Setting up worker: ''
                  @ fmt_d (int (workerCount (take (Suc k) (plan fl hosts)))) @ ''"\<newline>'')
           (renderedText (plan fl hosts ! k))\<close>
    unfolding rtext ord
    using workerText_marker [of "int k" "\<lparr>serversAdded = c, primaryServer = hd hosts, script = []\<rparr>"]
    by simp
  moreover have "int (workerCount (take (Suc k) (plan fl hosts)))
           = (int k + 1) - int (controlPlaneCount (take k (plan fl hosts)))"
    unfolding ord cp using ck by simp
  moreover have "1 \<le> workerCount (take (Suc k) (plan fl hosts))"
    using ord ck by simp
  moreover have "stdout (RunE fl hosts)
           = ''#!/bin/sh\<newline>\<newline>'' @ concat (map renderedText (plan fl hosts)) @ ''\<newline>''"
    by (simp add: RunE_plan)
  ultimately show ?thesis by blast
qed

theorem C7_worker_ordinal_witness:
  \<open>nodeLimit (defaultFlags\<lparr>servers := 1, nodeLimit := 3\<rparr>) < int (length (exampleHosts @ exampleHosts))
   \<and> 2 < length (plan (defaultFlags\<lparr>servers := 1, nodeLimit := 3\<rparr>) (exampleHosts @ exampleHosts))
   \<and> role (plan (defaultFlags\<lparr>servers := 1, nodeLimit := 3\<rparr>) (exampleHosts @ exampleHosts) ! 2) = Worker
   \<and> workerCount (take (Suc 2) (plan (defaultFlags\<lparr>servers := 1, nodeLimit := 3\<rparr>) (exampleHosts @ exampleHosts))) = 2
   \<and> prefix (''\<newline>echo "Setting up worker: 2"\<newline>'')
        (renderedText (plan (defaultFlags\<lparr>servers := 1, nodeLimit := 3\<rparr>) (exampleHosts @ exampleHosts) ! 2))\<close>
proof -
  let ?fl = "defaultFlags\<lparr>servers := 1, nodeLimit := 3\<rparr>"
  have l: "nodeLimit ?fl < int (length (exampleHosts @ exampleHosts))"
    by (simp add: exampleHosts_def)
  have h1: "2 < length (plan ?fl (exampleHosts @ exampleHosts))" by code_simp
  have h2: "role (plan ?fl (exampleHosts @ exampleHosts) ! 2) = Worker" by code_simp
  have n: "workerCount (take (Suc 2) (plan ?fl (exampleHosts @ exampleHosts))) = 2" by code_simp
  have d: "fmt_d (int 2) = ''2''" by code_simp
  from C7_worker_ordinal [OF h1 h2]
  have \<open>prefix (''\<newline>echo "Setting up worker: '' @ ''2'' @ ''"\<newline>'')
        (renderedText (plan ?fl (exampleHosts @ exampleHosts) ! 2))\<close>
    unfolding n d by blast
  then have \<open>prefix (''\<newline>echo "Setting up worker: 2"\<newline>'')
        (renderedText (plan ?fl (exampleHosts @ exampleHosts) ! 2))\<close>
    by simp
  with l h1 h2 n show ?thesis by blast
qed

text \<open>
  C8. On an empty host list the run returns no error, the plan has no block, and the
  output is the header line alone (followed by the newline of the final print).
\<close>

theorem C8_empty_hosts:
  "err (RunE fl []) = None \<and> plan fl [] = []
   \<and> stdout (RunE fl []) = ''#!/bin/sh\<newline>\<newline>'' @ ''\<newline>''"
  by (simp add: RunE_plan plan_Nil)

text \<open>
  C10. The host names play no part: two host lists with the same addresses, entry by
  entry, give the same blocks and the same output under the same flags.
\<close>

theorem C10_hostnames_irrelevant:
  assumes "map IP hosts = map IP hosts'"
  shows "plan fl hosts = plan fl hosts' \<and> RunE fl hosts = RunE fl hosts'"
proof -
  have "plan fl hosts = plan fl hosts'" by (rule plan_IP [OF assms])
  then show ?thesis by (simp add: RunE_plan)
qed

theorem C10_hostnames_irrelevant_witness:
  "map IP exampleHosts = map IP (map (\<lambda>h. h\<lparr>Hostname := ''renamed''\<rparr>) exampleHosts)
   \<and> map Hostname exampleHosts \<noteq> map Hostname (map (\<lambda>h. h\<lparr>Hostname := ''renamed''\<rparr>) exampleHosts)
   \<and> RunE defaultFlags exampleHosts
       = RunE defaultFlags (map (\<lambda>h. h\<lparr>Hostname := ''renamed''\<rparr>) exampleHosts)"
proof -
  let ?hs' = "map (\<lambda>h. h\<lparr>Hostname := ''renamed''\<rparr>) exampleHosts"
  have h: "map IP exampleHosts = map IP ?hs'" by (simp add: exampleHosts_def)
  have d: "map Hostname exampleHosts \<noteq> map Hostname ?hs'" by (simp add: exampleHosts_def)
  from C10_hostnames_irrelevant [OF h, of defaultFlags] h d show ?thesis by blast
qed

end
